theory Spec2Isabelle
  imports Complex_Main "HOL-Library.Multiset"
begin

section \<open>The job dispatcher simulator (dispatcher.cpp)\<close>

text \<open>
  A shallow embedding of \<^verbatim>\<open>src/dispatcher.cpp\<close>. The program is sequential; everything
  it takes from outside (the steady clock, the random generator, the contents of the
  database file) is an explicit input of the model, and everything it does to the outside
  (sleeping, inserting rows) is recorded in the state.

  Conventions.
  \<^item> C++ \<^verbatim>\<open>int\<close> and \<^verbatim>\<open>int64_t\<close> values are modelled as \<open>int\<close>. The places where the
    source narrows or shifts a value so that 32-bit wrap-around is visible
    (\<^verbatim>\<open>(int)(...)\<close> casts and \<^verbatim>\<open>100 << n\<close>) go through \<open>to_int32\<close>; the shift follows
    C++20 (the product modulo \<open>2 ^ 32\<close>), and a shift count outside \<open>0..31\<close>, which C++
    leaves undefined, is recorded as an effect of its own, after which the model goes on
    without sleeping. The counters \<^verbatim>\<open>successes\<close>, \<^verbatim>\<open>failures\<close>, \<^verbatim>\<open>priority + 1\<close> and the
    64-bit sums and timestamps are assumed to stay in range. The loop index \<^verbatim>\<open>int i\<close> of
    \<^verbatim>\<open>seed_jobs\<close> stays in range exactly when the job count is below \<open>2147483647\<close>; the
    theorems about the whole set of seeded jobs carry this bound as a hypothesis.
  \<^item> C++ \<^verbatim>\<open>double\<close> values are modelled as \<open>real\<close> (exact arithmetic).
  \<^item> The SQLite calls are assumed to succeed (the \<^verbatim>\<open>die\<close> paths are not modelled);
    console output is not modelled.
\<close>

subsection \<open>Utilities\<close>

record Args =
  jobs :: int
  max_retries :: int
  mean_ms :: int
  stddev_ms :: int
  db_path :: string

definition default_args :: Args where
  "default_args =
     \<lparr> jobs = 12, max_retries = 2, mean_ms = 300, stddev_ms = 100,
       db_path = ''dispatcher.db'' \<rparr>"

text \<open>Conversion of an integer to a 32-bit two's complement \<^verbatim>\<open>int\<close>.\<close>

definition to_int32 :: "int \<Rightarrow> int" where
  "to_int32 x = (x + 2147483648) mod 4294967296 - 2147483648"

text \<open>C++ integer division truncates towards zero.\<close>

definition tdiv :: "int \<Rightarrow> int \<Rightarrow> int" where
  "tdiv a b = sgn a * sgn b * (\<bar>a\<bar> div \<bar>b\<bar>)"

subsection \<open>Domain\<close>

record Job =
  ext_id :: int
  priority :: int
  attempt :: int
  max_retries :: int
  enqueue_ts :: int
  start_ts :: "int option"
  end_ts :: "int option"
  wait_ms :: int
  service_ms :: int
  turnaround_ms :: int
  status :: string
  fail_reason :: string

text \<open>
  \<^verbatim>\<open>JobCmp\<close>: the "less than" of the priority queue. \<open>JobCmp a b\<close> says that \<open>a\<close> is
  dispatched after \<open>b\<close>.
\<close>

definition JobCmp :: "Job \<Rightarrow> Job \<Rightarrow> bool" where
  "JobCmp a b =
     (if priority a \<noteq> priority b then priority a < priority b
      else enqueue_ts a > enqueue_ts b)"

subsection \<open>The priority queue\<close>

text \<open>
  \<^verbatim>\<open>std::priority_queue<Job, std::vector<Job>, JobCmp>\<close> is library code. Its contract is
  modelled on the list of the pending jobs: \<open>pq_push\<close> adds a job, \<open>pq_top\<close> scans for a
  greatest job under \<open>JobCmp\<close> (\<open>None\<close> on the empty queue, where \<^verbatim>\<open>top()\<close> is
  undefined), \<open>pq_pop\<close> removes that job. Which of several jobs that \<open>JobCmp\<close> does not
  distinguish comes first is left open by the C++ standard; the model takes the one
  pushed first.
\<close>

type_synonym pqueue = "Job list"

definition pq_push :: "Job \<Rightarrow> pqueue \<Rightarrow> pqueue" where
  "pq_push j q = q @ [j]"

fun greatest :: "Job \<Rightarrow> Job list \<Rightarrow> Job" where
  "greatest m [] = m"
| "greatest m (x # xs) = greatest (if JobCmp m x then x else m) xs"

definition pq_top :: "pqueue \<Rightarrow> Job option" where
  "pq_top q = (case q of [] \<Rightarrow> None | x # xs \<Rightarrow> Some (greatest x xs))"

definition pq_pop :: "pqueue \<Rightarrow> pqueue" where
  "pq_pop q = (case pq_top q of None \<Rightarrow> q | Some m \<Rightarrow> remove1 m q)"

definition pq_empty :: "pqueue \<Rightarrow> bool" where
  "pq_empty q = (q = [])"

text \<open>
  What the library keeps of the vector inside the queue, whatever its algorithms:
  \<^verbatim>\<open>std::is_heap\<close> under \<open>JobCmp\<close> (no element is less than the element at its parent
  index), with \<^verbatim>\<open>top()\<close> the front of the vector.
\<close>

definition is_heap :: "Job list \<Rightarrow> bool" where
  "is_heap v = list_all (\<lambda>i. \<not> JobCmp (v ! ((i - 1) div 2)) (v ! i)) [1..<length v]"

subsection \<open>The outside world\<close>

text \<open>
  The inputs the program takes from outside during a run. The steady clock counts
  nanoseconds, and a call of \<^verbatim>\<open>sleep_for\<close> blocks for the time asked for or longer: the
  \<open>k\<close>-th reading of \<^verbatim>\<open>Clock::now()\<close> is the time the program has so far been made to sleep
  plus \<open>tick_at w k\<close>, which stands for the clock's value when the program starts and the
  time it has spent otherwise (computing, writing to the database, oversleeping). The
  generator \<^verbatim>\<open>std::mt19937_64\<close> is seeded from \<^verbatim>\<open>std::random_device\<close>; the model numbers
  the calls made to it, and the world fixes what the \<open>n\<close>-th call yields when it is made
  through the uniform integer distribution on \<open>[1, 10]\<close> (\<open>prio_at\<close>), through a standard
  normal distribution (\<open>normal_at\<close>) or through a Bernoulli distribution, which compares a
  uniform variate of \<open>[0, 1)\<close> (\<open>unif_at\<close>) with its parameter.
\<close>

record world =
  tick_at :: "nat \<Rightarrow> int"
  prio_at :: "nat \<Rightarrow> int"
  normal_at :: "nat \<Rightarrow> real"
  unif_at :: "nat \<Rightarrow> real"

text \<open>What the library promises of \<^verbatim>\<open>prio_dist{1, 10}\<close>.\<close>

definition rng_contract :: "world \<Rightarrow> bool" where
  "rng_contract w = (\<forall>n. 1 \<le> prio_at w n \<and> prio_at w n \<le> 10)"

subsection \<open>The random process model\<close>

record RNG =
  gen :: nat
  norm_mean :: int
  norm_stddev :: int

definition RNG_init :: "int \<Rightarrow> int \<Rightarrow> RNG" where
  "RNG_init mean stddev = \<lparr> gen = 0, norm_mean = mean, norm_stddev = stddev \<rparr>"

definition rng_service_ms :: "world \<Rightarrow> RNG \<Rightarrow> int \<times> RNG" where
  "rng_service_ms w r =
     (let x = real_of_int (norm_mean r) + real_of_int (norm_stddev r) * normal_at w (gen r);
          v = round (max 30 x)
      in (v, r\<lparr>gen := Suc (gen r)\<rparr>))"

definition rng_priority :: "world \<Rightarrow> RNG \<Rightarrow> int \<times> RNG" where
  "rng_priority w r = (prio_at w (gen r), r\<lparr>gen := Suc (gen r)\<rparr>)"

definition should_fail :: "world \<Rightarrow> int \<Rightarrow> RNG \<Rightarrow> bool \<times> RNG" where
  "should_fail w att r =
     (let p = max (2 / 100) (20 / 100 - 6 / 100 * real_of_int att)
      in (unif_at w (gen r) < p, r\<lparr>gen := Suc (gen r)\<rparr>))"

subsection \<open>The database and the recorder\<close>

text \<open>
  The two tables of \<^verbatim>\<open>create_schema\<close>. Both primary keys are
  \<^verbatim>\<open>INTEGER PRIMARY KEY AUTOINCREMENT\<close>: SQLite gives a new row the largest row id the
  table ever held plus one, so the first row of a table has id 1. \<open>runs_seq\<close> and
  \<open>jobs_seq\<close> hold these largest ids.
\<close>

record runs_row =
  r_run_id :: int
  started_at :: int
  finished_at :: int
  total_jobs :: int
  success_jobs :: int
  failed_jobs :: int
  avg_wait_ms :: real
  avg_service_ms :: real
  avg_turnaround_ms :: real
  throughput_jobs_per_s :: real

record jobs_row =
  c_job_id :: int
  c_run_id :: int
  c_ext_id :: int
  c_priority :: int
  c_attempt :: int
  c_status :: string
  c_fail_reason :: string
  c_enqueue_ts :: int
  c_start_ts :: int
  c_end_ts :: int
  c_wait_ms :: int
  c_service_ms :: int
  c_turnaround_ms :: int

record DB =
  runs_table :: "runs_row list"
  runs_seq :: int
  jobs_table :: "jobs_row list"
  jobs_seq :: int

definition empty_db :: DB where
  "empty_db = \<lparr> runs_table = [], runs_seq = 0, jobs_table = [], jobs_seq = 0 \<rparr>"

record RunRecorder =
  run_start_ms :: int
  run_end_ms :: int
  run_id :: int

definition RunRecorder_init :: RunRecorder where
  "RunRecorder_init = \<lparr> run_start_ms = 0, run_end_ms = 0, run_id = 0 \<rparr>"

definition value_or :: "int option \<Rightarrow> int \<Rightarrow> int" where
  "value_or x d = (case x of None \<Rightarrow> d | Some v \<Rightarrow> v)"

definition record_job :: "RunRecorder \<Rightarrow> Job \<Rightarrow> DB \<Rightarrow> DB" where
  "record_job r j b =
     (let row = \<lparr> c_job_id = jobs_seq b + 1,
                   c_run_id = run_id r,
                   c_ext_id = ext_id j,
                   c_priority = priority j,
                   c_attempt = attempt j,
                   c_status = status j,
                   c_fail_reason = fail_reason j,
                   c_enqueue_ts = enqueue_ts j,
                   c_start_ts = value_or (start_ts j) 0,
                   c_end_ts = value_or (end_ts j) 0,
                   c_wait_ms = wait_ms j,
                   c_service_ms = service_ms j,
                   c_turnaround_ms = turnaround_ms j \<rparr>
      in b\<lparr>jobs_table := jobs_table b @ [row], jobs_seq := jobs_seq b + 1\<rparr>)"

definition record_run_summary ::
  "int \<Rightarrow> int \<Rightarrow> int \<Rightarrow> real \<Rightarrow> real \<Rightarrow> real \<Rightarrow> real \<Rightarrow> RunRecorder \<times> DB \<Rightarrow> RunRecorder \<times> DB" where
  "record_run_summary n_total succ fail avg_wait avg_service avg_turn throughput rb =
     (let r = fst rb; b = snd rb;
          rowid = runs_seq b + 1;
          row = \<lparr> r_run_id = rowid,
                   started_at = run_start_ms r,
                   finished_at = run_end_ms r,
                   total_jobs = n_total,
                   success_jobs = succ,
                   failed_jobs = fail,
                   avg_wait_ms = avg_wait,
                   avg_service_ms = avg_service,
                   avg_turnaround_ms = avg_turn,
                   throughput_jobs_per_s = throughput \<rparr>
      in (r\<lparr>run_id := to_int32 rowid\<rparr>,
          b\<lparr>runs_table := runs_table b @ [row], runs_seq := rowid\<rparr>))"

subsection \<open>The dispatcher\<close>

text \<open>
  What the program does to the outside, in the order it does it: readings of the clock
  (with the value read), calls of \<^verbatim>\<open>sleep_for\<close> (with the milliseconds asked for), and
  the evaluation of a shift whose count is negative or not below the width of \<^verbatim>\<open>int\<close>,
  which C++ leaves undefined.
\<close>

datatype effect = ClockRead int | SleepFor int | ShiftUndefined

text \<open>
  The members of \<^verbatim>\<open>Dispatcher\<close>, the local variables of \<^verbatim>\<open>Dispatcher::run\<close>
  (\<open>wall_start\<close>, \<open>successes\<close>, \<open>failures\<close> and the three sums), the number of clock
  readings made so far, the milliseconds slept so far and the effects so far.
\<close>

record Dispatcher =
  args :: Args
  rng :: RNG
  db :: DB
  rec :: RunRecorder
  pq :: pqueue
  completed :: "Job list"
  wall_start :: int
  successes :: int
  failures :: int
  total_wait :: int
  total_service :: int
  total_turn :: int
  clock_reads :: nat
  slept_ms :: int
  effects :: "effect list"

definition Dispatcher_init :: "Args \<Rightarrow> DB \<Rightarrow> Dispatcher" where
  "Dispatcher_init a b =
     \<lparr> args = a, rng = RNG_init (mean_ms a) (stddev_ms a), db = b, rec = RunRecorder_init,
       pq = [], completed = [], wall_start = 0, successes = 0, failures = 0,
       total_wait = 0, total_service = 0, total_turn = 0, clock_reads = 0, slept_ms = 0,
       effects = [] \<rparr>"

text \<open>The value that \<^verbatim>\<open>Clock::now()\<close> returns in the state \<open>d\<close>.\<close>

definition clock_value :: "world \<Rightarrow> Dispatcher \<Rightarrow> int" where
  "clock_value w d = tick_at w (clock_reads d) + 1000000 * slept_ms d"

definition clock_now :: "world \<Rightarrow> Dispatcher \<Rightarrow> int \<times> Dispatcher" where
  "clock_now w d =
     (let t = clock_value w d
      in (t, d\<lparr>clock_reads := Suc (clock_reads d), effects := effects d @ [ClockRead t]\<rparr>))"

definition now_ms :: "world \<Rightarrow> Dispatcher \<Rightarrow> int \<times> Dispatcher" where
  "now_ms w d = (let (t, d') = clock_now w d in (tdiv t 1000000, d'))"

text \<open>\<^verbatim>\<open>std::this_thread::sleep_for(Ms(ms))\<close>; a duration that is not positive does not block.\<close>

definition sleep_for :: "int \<Rightarrow> Dispatcher \<Rightarrow> Dispatcher" where
  "sleep_for ms d =
     d\<lparr>slept_ms := slept_ms d + max 0 ms, effects := effects d @ [SleepFor ms]\<rparr>"

definition rec_begin :: "world \<Rightarrow> Dispatcher \<Rightarrow> Dispatcher" where
  "rec_begin w d = (let (t, d') = now_ms w d in d'\<lparr>rec := (rec d')\<lparr>run_start_ms := t\<rparr>\<rparr>)"

definition rec_end :: "world \<Rightarrow> Dispatcher \<Rightarrow> Dispatcher" where
  "rec_end w d = (let (t, d') = now_ms w d in d'\<lparr>rec := (rec d')\<lparr>run_end_ms := t\<rparr>\<rparr>)"

text \<open>\<^verbatim>\<open>Job j;\<close> followed by the four assignments of \<^verbatim>\<open>seed_jobs\<close>.\<close>

definition make_job :: "int \<Rightarrow> int \<Rightarrow> int \<Rightarrow> int \<Rightarrow> Job" where
  "make_job i p m t =
     \<lparr> ext_id = i, priority = p, attempt = 0, max_retries = m, enqueue_ts = t,
       start_ts = None, end_ts = None, wait_ms = 0, service_ms = 0, turnaround_ms = 0,
       status = ''PENDING'', fail_reason = [] \<rparr>"

text \<open>
  The loop \<^verbatim>\<open>for (int i = 1; i <= args.jobs; ++i)\<close> of \<^verbatim>\<open>seed_jobs\<close>, started at index \<open>i\<close>.
  The index is an integer here. For \<open>jobs (args d) < 2147483647\<close> every value it takes is
  an \<^verbatim>\<open>int\<close> and this is the loop of the source. For \<open>jobs (args d) = 2147483647\<close> the last
  \<^verbatim>\<open>++i\<close> of the source overflows, which C++ leaves undefined, while the index below
  counts on; what is proved of the seeded jobs of a whole run is stated for job counts
  below \<open>2147483647\<close>.
\<close>

function seed_loop :: "world \<Rightarrow> int \<Rightarrow> int \<Rightarrow> Dispatcher \<Rightarrow> Dispatcher" where
  "seed_loop w t0 i d =
     (if i \<le> jobs (args d) then
        (let (p, r) = rng_priority w (rng d);
             j = make_job i p (Args.max_retries (args d)) (t0 + i)
         in seed_loop w t0 (i + 1) (d\<lparr>rng := r, pq := pq_push j (pq d)\<rparr>))
      else d)"
  by pat_completeness auto
termination
  by (relation "measure (\<lambda>(w, t0, i, d). nat (jobs (args d) + 1 - i))")
     (auto simp: rng_priority_def)

definition seed_jobs :: "world \<Rightarrow> Dispatcher \<Rightarrow> Dispatcher" where
  "seed_jobs w d = (let (t0, d') = now_ms w d in seed_loop w t0 1 d')"

text \<open>
  \<^verbatim>\<open>a << n\<close> on \<^verbatim>\<open>int\<close>: the product with \<open>2 ^ n\<close> reduced to 32 bits when
  \<open>0 \<le> n < 32\<close>, undefined otherwise.
\<close>

definition shl32 :: "int \<Rightarrow> int \<Rightarrow> int option" where
  "shl32 a n = (if 0 \<le> n \<and> n < 32 then Some (to_int32 (a * 2 ^ nat n)) else None)"

definition maybe_backoff :: "Job \<Rightarrow> Dispatcher \<Rightarrow> Dispatcher" where
  "maybe_backoff j d =
     (if attempt j = 0 then d
      else (case shl32 100 (attempt j - 1) of
              None \<Rightarrow> d\<lparr>effects := effects d @ [ShiftUndefined]\<rparr>
            | Some backoff \<Rightarrow> sleep_for backoff d))"

text \<open>The loop body from \<^verbatim>\<open>maybe_backoff(j)\<close> to the assignment of \<^verbatim>\<open>turnaround_ms\<close>.\<close>

definition run_attempt :: "world \<Rightarrow> Job \<Rightarrow> Dispatcher \<Rightarrow> (Job \<times> bool) \<times> Dispatcher" where
  "run_attempt w j0 d0 =
     (let d1 = maybe_backoff j0 d0;
          (t1, d2) = now_ms w d1;
          j1 = j0\<lparr>start_ts := Some t1, status := ''RUNNING'',
                  wait_ms := to_int32 (t1 - enqueue_ts j0)\<rparr>;
          (svc, r1) = rng_service_ms w (rng d2);
          j2 = j1\<lparr>service_ms := svc\<rparr>;
          d3 = sleep_for svc (d2\<lparr>rng := r1\<rparr>);
          (fail, r2) = should_fail w (attempt j2) (rng d3);
          (t2, d4) = now_ms w (d3\<lparr>rng := r2\<rparr>);
          j3 = j2\<lparr>end_ts := Some t2, turnaround_ms := to_int32 (t2 - enqueue_ts j2)\<rparr>
      in ((j3, fail), d4))"

text \<open>The branch \<^verbatim>\<open>if (!fail)\<close>.\<close>

definition succeeded :: "Job \<Rightarrow> Job" where
  "succeeded j = j\<lparr>status := ''SUCCESS''\<rparr>"

definition on_success :: "Job \<Rightarrow> Dispatcher \<Rightarrow> Dispatcher" where
  "on_success j0 d =
     (let j = succeeded j0
      in d\<lparr>successes := successes d + 1,
            total_wait := total_wait d + wait_ms j,
            total_service := total_service d + service_ms j,
            total_turn := total_turn d + turnaround_ms j,
            db := record_job (rec d) j (db d),
            completed := completed d @ [j]\<rparr>)"

text \<open>The retry: the assignments before \<^verbatim>\<open>pq.push(j)\<close>, with \<open>t\<close> the value of \<^verbatim>\<open>now_ms()\<close>.\<close>

definition requeued :: "int \<Rightarrow> Job \<Rightarrow> Job" where
  "requeued t j =
     j\<lparr>attempt := attempt j + 1, status := ''PENDING'',
       priority := min 10 (priority j + 1), enqueue_ts := t\<rparr>"

text \<open>The \<^verbatim>\<open>else\<close> branch.\<close>

definition failed :: "Job \<Rightarrow> Job" where
  "failed j = j\<lparr>status := ''FAILED'', fail_reason := ''SIMULATED_FAILURE''\<rparr>"

definition on_failure :: "world \<Rightarrow> Job \<Rightarrow> Dispatcher \<Rightarrow> Dispatcher" where
  "on_failure w j0 d =
     (let j = failed j0;
          d1 = d\<lparr>db := record_job (rec d) j (db d)\<rparr>
      in if attempt j < Job.max_retries j then
           (let (t, d2) = now_ms w d1
            in d2\<lparr>pq := pq_push (requeued t j) (pq d2)\<rparr>)
         else d1\<lparr>failures := failures d1 + 1, completed := completed d1 @ [j]\<rparr>)"

text \<open>One iteration of \<^verbatim>\<open>while (!pq.empty())\<close>.\<close>

definition loop_body :: "world \<Rightarrow> Dispatcher \<Rightarrow> Dispatcher" where
  "loop_body w d =
     (case pq_top (pq d) of
        None \<Rightarrow> d
      | Some j \<Rightarrow>
          (let ((j', fail), d') = run_attempt w j (d\<lparr>pq := pq_pop (pq d)\<rparr>)
           in if \<not> fail then on_success j' d' else on_failure w j' d'))"

text \<open>\<^verbatim>\<open>while (!pq.empty()) { ... }\<close>\<close>

function run_loop :: "world \<Rightarrow> Dispatcher \<Rightarrow> Dispatcher" where
  "run_loop w d = (if pq_empty (pq d) then d else run_loop w (loop_body w d))"
  by pat_completeness auto

text \<open>The end of \<^verbatim>\<open>run\<close>, from \<^verbatim>\<open>rec.end()\<close> to \<^verbatim>\<open>rec.record_run_summary(...)\<close>.\<close>

definition finish :: "world \<Rightarrow> Dispatcher \<Rightarrow> Dispatcher" where
  "finish w d =
     (let d1 = rec_end w d;
          (t, d2) = clock_now w d1;
          seconds = max (1 / 1000) (real_of_int (t - wall_start d2) / 1000000000);
          n_total = successes d2 + failures d2;
          avg_wait = (if n_total \<noteq> 0 then real_of_int (total_wait d2) / real_of_int n_total else 0);
          avg_service =
            (if n_total \<noteq> 0 then real_of_int (total_service d2) / real_of_int n_total else 0);
          avg_turn = (if n_total \<noteq> 0 then real_of_int (total_turn d2) / real_of_int n_total else 0);
          throughput = (if seconds > 0 then real_of_int (successes d2) / seconds else 0);
          (r, b) = record_run_summary n_total (successes d2) (failures d2)
                     avg_wait avg_service avg_turn throughput (rec d2, db d2)
      in d2\<lparr>rec := r, db := b\<rparr>)"

text \<open>The state in which \<^verbatim>\<open>run\<close> enters its loop.\<close>

definition start :: "world \<Rightarrow> Dispatcher \<Rightarrow> Dispatcher" where
  "start w d =
     (let d1 = rec_begin w d;
          d2 = seed_jobs w d1;
          (t, d3) = clock_now w d2
      in d3\<lparr>wall_start := t, successes := 0, failures := 0,
             total_wait := 0, total_service := 0, total_turn := 0\<rparr>)"

definition run :: "world \<Rightarrow> Dispatcher \<Rightarrow> Dispatcher" where
  "run w d = finish w (run_loop w (start w d))"

text \<open>The state after \<open>n\<close> iterations of the loop (fewer if the queue empties before).\<close>

fun iterations :: "nat \<Rightarrow> world \<Rightarrow> Dispatcher \<Rightarrow> Dispatcher" where
  "iterations 0 w d = d"
| "iterations (Suc n) w d =
     (if pq_empty (pq d) then d else iterations n w (loop_body w d))"

subsection \<open>The command line\<close>

text \<open>
  \<^verbatim>\<open>std::stoi\<close> is library code: it skips white space, reads an optional sign and the
  longest run of decimal digits, throws \<^verbatim>\<open>std::invalid_argument\<close> when there is no digit
  and \<^verbatim>\<open>std::out_of_range\<close> when the value is no \<^verbatim>\<open>int\<close>. \<^verbatim>\<open>main\<close> catches neither.
\<close>

datatype error = InvalidArgument | OutOfRange

definition is_space :: "char \<Rightarrow> bool" where
  "is_space c = (of_char c \<in> {32, 9, 10, 11, 12, 13 :: nat})"

definition is_digit :: "char \<Rightarrow> bool" where
  "is_digit c = (48 \<le> (of_char c :: nat) \<and> (of_char c :: nat) \<le> 57)"

fun read_digits :: "int \<Rightarrow> string \<Rightarrow> int" where
  "read_digits acc [] = acc"
| "read_digits acc (c # cs) =
     (if is_digit c then read_digits (10 * acc + (of_char c - 48)) cs else acc)"

definition stoi :: "string \<Rightarrow> error + int" where
  "stoi s =
     (let t = dropWhile is_space s;
          neg = (t \<noteq> [] \<and> hd t = CHR ''-'');
          u = (if t \<noteq> [] \<and> (hd t = CHR ''-'' \<or> hd t = CHR ''+'') then tl t else t)
      in if u = [] \<or> \<not> is_digit (hd u) then Inl InvalidArgument
         else (let v = read_digits 0 u; n = (if neg then - v else v)
               in if n < - 2147483648 \<or> 2147483647 < n then Inl OutOfRange else Inr n))"

text \<open>
  The loop of \<^verbatim>\<open>parse_args\<close> over \<^verbatim>\<open>argv[1..]\<close>: an option followed by another argument
  consumes it, and no value is checked.
\<close>

fun parse_loop :: "Args \<Rightarrow> string list \<Rightarrow> error + Args" where
  "parse_loop a [] = Inr a"
| "parse_loop a [k] = Inr a"
| "parse_loop a (k # v # rest) =
     (if k = ''--jobs'' then
        (case stoi v of Inl e \<Rightarrow> Inl e | Inr n \<Rightarrow> parse_loop (a\<lparr>jobs := n\<rparr>) rest)
      else if k = ''--max-retries'' then
        (case stoi v of Inl e \<Rightarrow> Inl e | Inr n \<Rightarrow> parse_loop (a\<lparr>Args.max_retries := n\<rparr>) rest)
      else if k = ''--mean-ms'' then
        (case stoi v of Inl e \<Rightarrow> Inl e | Inr n \<Rightarrow> parse_loop (a\<lparr>mean_ms := n\<rparr>) rest)
      else if k = ''--stddev-ms'' then
        (case stoi v of Inl e \<Rightarrow> Inl e | Inr n \<Rightarrow> parse_loop (a\<lparr>stddev_ms := n\<rparr>) rest)
      else if k = ''--db'' then parse_loop (a\<lparr>db_path := v\<rparr>) rest
      else parse_loop a (v # rest))"

definition parse_args :: "string list \<Rightarrow> error + Args" where
  "parse_args argv = parse_loop default_args (tl argv)"

text \<open>
  \<^verbatim>\<open>main\<close>: \<open>b\<close> is the content of the database file when it is opened
  (\<^verbatim>\<open>CREATE TABLE IF NOT EXISTS\<close> keeps it).
\<close>

definition main :: "world \<Rightarrow> DB \<Rightarrow> string list \<Rightarrow> error + Dispatcher" where
  "main w b argv =
     (case parse_args argv of
        Inl e \<Rightarrow> Inl e
      | Inr a \<Rightarrow> Inr (run w (Dispatcher_init a b)))"

subsection \<open>Derived notions\<close>

text \<open>
  The order of dispatch that the specification states: \<open>job_le j m\<close> says that \<open>m\<close> has a
  higher priority than \<open>j\<close>, or the same priority and no later enqueue timestamp.
\<close>

definition job_le :: "Job \<Rightarrow> Job \<Rightarrow> bool" where
  "job_le j m = (priority j < priority m \<or>
                 (priority j = priority m \<and> enqueue_ts m \<le> enqueue_ts j))"

text \<open>
  The three components of \<open>run_attempt\<close>: the job as it leaves the attempt, whether the
  attempt fails, and the state after it.
\<close>

definition attempted :: "world \<Rightarrow> Job \<Rightarrow> Dispatcher \<Rightarrow> Job" where
  "attempted w j d = fst (fst (run_attempt w j d))"

definition attempt_fails :: "world \<Rightarrow> Job \<Rightarrow> Dispatcher \<Rightarrow> bool" where
  "attempt_fails w j d = snd (fst (run_attempt w j d))"

definition after_attempt :: "world \<Rightarrow> Job \<Rightarrow> Dispatcher \<Rightarrow> Dispatcher" where
  "after_attempt w j d = snd (run_attempt w j d)"

text \<open>The effects of \<open>maybe_backoff\<close>, and the milliseconds for which it blocks.\<close>

definition backoff_effects :: "Job \<Rightarrow> effect list" where
  "backoff_effects j =
     (if attempt j = 0 then []
      else (case shl32 100 (attempt j - 1) of
              None \<Rightarrow> [ShiftUndefined]
            | Some b \<Rightarrow> [SleepFor b]))"

definition backoff_slept :: "Job \<Rightarrow> int" where
  "backoff_slept j =
     (if attempt j = 0 then 0
      else (case shl32 100 (attempt j - 1) of
              None \<Rightarrow> 0
            | Some b \<Rightarrow> max 0 b))"

text \<open>
  The three readings of the clock in an iteration that dispatches the job \<open>j\<close> from the
  state \<open>d\<close>: the one that gives \<open>start_ts\<close>, the one that gives \<open>end_ts\<close>, and the one that
  gives the new \<open>enqueue_ts\<close> when the job is retried.
\<close>

definition start_reading :: "world \<Rightarrow> Job \<Rightarrow> Dispatcher \<Rightarrow> int" where
  "start_reading w j d =
     tick_at w (clock_reads d) + 1000000 * (slept_ms d + backoff_slept j)"

definition end_reading :: "world \<Rightarrow> Job \<Rightarrow> Dispatcher \<Rightarrow> int" where
  "end_reading w j d =
     tick_at w (Suc (clock_reads d))
       + 1000000 * (slept_ms d + backoff_slept j + max 0 (fst (rng_service_ms w (rng d))))"

definition retry_reading :: "world \<Rightarrow> Job \<Rightarrow> Dispatcher \<Rightarrow> int" where
  "retry_reading w j d =
     tick_at w (Suc (Suc (clock_reads d)))
       + 1000000 * (slept_ms d + backoff_slept j + max 0 (fst (rng_service_ms w (rng d))))"

text \<open>
  The attempts a pending job can still make, and their sum over the queue: the measure
  that decreases with every iteration of the loop.
\<close>

definition job_work :: "Job \<Rightarrow> nat" where
  "job_work j = nat (Job.max_retries j - attempt j) + 1"

definition pending_work :: "pqueue \<Rightarrow> nat" where
  "pending_work q = sum_list (map job_work q)"

text \<open>
  The jobs that \<open>seed_loop\<close> pushes when it runs from \<open>i\<close> to \<open>n\<close> with the generator
  at its call number \<open>g\<close>.
\<close>

definition seeded :: "world \<Rightarrow> int \<Rightarrow> nat \<Rightarrow> int \<Rightarrow> int \<Rightarrow> int \<Rightarrow> Job list" where
  "seeded w t0 g m i n =
     map (\<lambda>k. make_job k (prio_at w (g + nat (k - i))) m (t0 + k)) [i..n]"

text \<open>The state in which the run of \<open>a\<close> on the database \<open>b\<close> is after \<open>n\<close> iterations.\<close>

definition during :: "world \<Rightarrow> Args \<Rightarrow> DB \<Rightarrow> nat \<Rightarrow> Dispatcher" where
  "during w a b n = iterations n w (start w (Dispatcher_init a b))"

text \<open>
  The bookkeeping of a run of \<open>n\<close> jobs: every external id of \<open>1..n\<close> is once in the queue
  or once in the completed set, every completed job is \<^verbatim>\<open>SUCCESS\<close> or \<^verbatim>\<open>FAILED\<close>, and the
  two counters count them.
\<close>

definition accounted :: "int \<Rightarrow> Dispatcher \<Rightarrow> bool" where
  "accounted n d =
     (mset (map ext_id (pq d)) + mset (map ext_id (completed d)) = mset [1..n]
      \<and> successes d = int (length (filter (\<lambda>j. status j = ''SUCCESS'') (completed d)))
      \<and> failures d = int (length (filter (\<lambda>j. status j = ''FAILED'') (completed d)))
      \<and> (\<forall>j \<in> set (completed d). status j = ''SUCCESS'' \<or> status j = ''FAILED''))"

text \<open>
  The two invariants of the retry policy: the attempts of the pending and the completed
  jobs are within \<open>[0, m]\<close> with \<open>m\<close> their common cap, and their priorities are within
  \<open>[1, 10]\<close>.
\<close>

definition attempts_bounded :: "int \<Rightarrow> Dispatcher \<Rightarrow> bool" where
  "attempts_bounded m d =
     (\<forall>j \<in> set (pq d) \<union> set (completed d).
        0 \<le> attempt j \<and> attempt j \<le> m \<and> Job.max_retries j = m)"

definition priorities_bounded :: "Dispatcher \<Rightarrow> bool" where
  "priorities_bounded d =
     (\<forall>j \<in> set (pq d) \<union> set (completed d). 1 \<le> priority j \<and> priority j \<le> 10)"

text \<open>The rows that a run started on the database \<open>b\<close> has inserted into the jobs table.\<close>

definition recorded :: "DB \<Rightarrow> Dispatcher \<Rightarrow> jobs_row list" where
  "recorded b d = drop (length (jobs_table b)) (jobs_table (db d))"

text \<open>The sum of a timing field over the completed jobs of status \<^verbatim>\<open>SUCCESS\<close>.\<close>

definition success_sum :: "(Job \<Rightarrow> int) \<Rightarrow> Dispatcher \<Rightarrow> int" where
  "success_sum f d = sum_list (map f (filter (\<lambda>j. status j = ''SUCCESS'') (completed d)))"

text \<open>
  A pending job carries the reason of its last failure: it is empty for a job that has not
  been attempted and \<^verbatim>\<open>SIMULATED_FAILURE\<close> for a job that is retried.
\<close>

definition reasons_kept :: "Dispatcher \<Rightarrow> bool" where
  "reasons_kept d =
     (\<forall>j \<in> set (pq d). 0 \<le> attempt j
        \<and> fail_reason j = (if attempt j = 0 then [] else ''SIMULATED_FAILURE''))"


text \<open>
  A job, a row of the jobs table and an effect whose timestamps are later by \<open>c\<close>
  milliseconds, and a job that carries the two timestamps of an attempt.
\<close>

definition shift_job :: "int \<Rightarrow> Job \<Rightarrow> Job" where
  "shift_job c j =
     j\<lparr>enqueue_ts := enqueue_ts j + c,
       start_ts := map_option (\<lambda>t. t + c) (start_ts j),
       end_ts := map_option (\<lambda>t. t + c) (end_ts j)\<rparr>"







subsection \<open>Sample worlds\<close>

text \<open>
  Worlds for evaluating runs. In the first three the clock starts at one second, ten
  milliseconds pass between two readings besides the time slept, every priority drawn is
  5, every normal variate is 0 (so that every service time is the mean), and the attempts
  all succeed, all fail, or fail exactly when the generator is at its call number 2 (the
  first attempt of a run of one job). The other two give the draws of the first: in one
  twenty milliseconds pass between two readings, in the other the clock starts seven
  milliseconds later.
\<close>

definition world_all_succeed :: world where
  "world_all_succeed =
     \<lparr> tick_at = (\<lambda>k. 1000000000 + 10000000 * int k), prio_at = (\<lambda>n. 5),
       normal_at = (\<lambda>n. 0), unif_at = (\<lambda>n. 1 / 2) \<rparr>"

definition world_all_fail :: world where
  "world_all_fail =
     \<lparr> tick_at = (\<lambda>k. 1000000000 + 10000000 * int k), prio_at = (\<lambda>n. 5),
       normal_at = (\<lambda>n. 0), unif_at = (\<lambda>n. 0) \<rparr>"

definition world_first_fails :: world where
  "world_first_fails =
     \<lparr> tick_at = (\<lambda>k. 1000000000 + 10000000 * int k), prio_at = (\<lambda>n. 5),
       normal_at = (\<lambda>n. 0), unif_at = (\<lambda>n. if n = 2 then 0 else 1 / 2) \<rparr>"



section \<open>Properties\<close>

subsection \<open>The priority queue\<close>

lemma job_le_refl: "job_le m m"
  by (simp add: job_le_def)

lemma job_le_trans: "job_le a b \<Longrightarrow> job_le b c \<Longrightarrow> job_le a c"
  by (auto simp: job_le_def)

lemma JobCmp_job_le: "JobCmp m x \<Longrightarrow> job_le m x"
  by (auto simp: JobCmp_def job_le_def split: if_splits)

lemma not_JobCmp_job_le: "\<not> JobCmp m x \<Longrightarrow> job_le x m"
  by (auto simp: JobCmp_def job_le_def split: if_splits)

lemma greatest_mem: "greatest m xs \<in> set (m # xs)"
  by (induction xs arbitrary: m) (auto split: if_splits)

lemma greatest_above_start: "job_le m (greatest m xs)"
proof (induction xs arbitrary: m)
  case Nil
  show ?case by (simp add: job_le_refl)
next
  case (Cons x xs)
  show ?case
  proof (cases "JobCmp m x")
    case True
    then have "job_le m x" by (rule JobCmp_job_le)
    moreover have "job_le x (greatest x xs)" by (rule Cons.IH)
    ultimately show ?thesis using True by (auto intro: job_le_trans)
  next
    case False
    then show ?thesis using Cons.IH [of m] by simp
  qed
qed

lemma greatest_above_all: "j \<in> set xs \<Longrightarrow> job_le j (greatest m xs)"
proof (induction xs arbitrary: m)
  case Nil
  then show ?case by simp
next
  case (Cons x xs)
  show ?case
  proof (cases "j = x")
    case True
    show ?thesis
    proof (cases "JobCmp m x")
      case True
      with \<open>j = x\<close> show ?thesis by (simp add: greatest_above_start)
    next
      case False
      then have "job_le x m" by (rule not_JobCmp_job_le)
      moreover have "job_le m (greatest m xs)" by (rule greatest_above_start)
      ultimately show ?thesis using False \<open>j = x\<close> by (auto intro: job_le_trans)
    qed
  next
    case False
    with Cons.prems have "j \<in> set xs" by simp
    then show ?thesis by (simp add: Cons.IH)
  qed
qed

lemma pq_top_Some: "q \<noteq> [] \<Longrightarrow> \<exists>m. pq_top q = Some m"
  by (cases q) (simp_all add: pq_top_def)

lemma pq_top_mem: "pq_top q = Some m \<Longrightarrow> m \<in> set q"
  using greatest_mem by (cases q) (auto simp: pq_top_def)

lemma pq_top_greatest: "pq_top q = Some m \<Longrightarrow> j \<in> set q \<Longrightarrow> job_le j m"
  by (cases q) (auto simp: pq_top_def job_le_refl greatest_above_start greatest_above_all)

lemma pq_pop_remove1: "pq_top q = Some m \<Longrightarrow> pq_pop q = remove1 m q"
  by (simp add: pq_pop_def)

lemma heap_front_greatest:
  assumes "is_heap v" and "i < length v"
  shows "job_le (v ! i) (v ! 0)"
  using assms(2)
proof (induction i rule: less_induct)
  case (less i)
  show ?case
  proof (cases "i = 0")
    case True
    then show ?thesis by (simp add: job_le_refl)
  next
    case False
    let ?p = "(i - 1) div 2"
    have p: "?p < i" using False by simp
    have "\<not> JobCmp (v ! ?p) (v ! i)"
      using assms(1) False less.prems by (simp add: is_heap_def list_all_iff)
    then have "job_le (v ! i) (v ! ?p)" by (rule not_JobCmp_job_le)
    moreover have "job_le (v ! ?p) (v ! 0)"
      using p less.prems by (intro less.IH) simp_all
    ultimately show ?thesis by (rule job_le_trans)
  qed
qed

lemma heap_hd_greatest:
  assumes "is_heap v" and "j \<in> set v"
  shows "job_le j (hd v)"
proof -
  from assms(2) obtain i where "i < length v" "v ! i = j"
    by (auto simp: in_set_conv_nth)
  moreover have "v \<noteq> []" using assms(2) by auto
  ultimately show ?thesis using heap_front_greatest [OF assms(1), of i] by (simp add: hd_conv_nth)
qed

text \<open>
  C5. On a non-empty queue the job that \<open>pq_top\<close> returns is a pending job; no pending job
  has a higher priority, and none of the same priority was enqueued earlier; \<open>pq_pop\<close>
  removes exactly this job. The same holds of the front of every vector that is a heap
  under \<open>JobCmp\<close>, which is what \<^verbatim>\<open>top()\<close> returns in the library.
\<close>

theorem popMax_highest_priority_earliest:
  assumes "q \<noteq> []"
  shows "(\<exists>m. pq_top q = Some m \<and> m \<in> set q
           \<and> (\<forall>j \<in> set q. priority j \<le> priority m
                 \<and> (priority j = priority m \<longrightarrow> enqueue_ts m \<le> enqueue_ts j))
           \<and> mset (pq_pop q) = mset q - {#m#}
           \<and> length (pq_pop q) + 1 = length q)
       \<and> (is_heap q \<longrightarrow>
            (\<forall>j \<in> set q. priority j \<le> priority (hd q)
                 \<and> (priority j = priority (hd q) \<longrightarrow> enqueue_ts (hd q) \<le> enqueue_ts j)))"
proof -
  from assms obtain m where top: "pq_top q = Some m"
    using pq_top_Some by blast
  have mem: "m \<in> set q" using top by (rule pq_top_mem)
  have ord: "\<forall>j \<in> set q. priority j \<le> priority m
                 \<and> (priority j = priority m \<longrightarrow> enqueue_ts m \<le> enqueue_ts j)"
  proof
    fix j assume "j \<in> set q"
    with top have "job_le j m" by (rule pq_top_greatest)
    then show "priority j \<le> priority m
                 \<and> (priority j = priority m \<longrightarrow> enqueue_ts m \<le> enqueue_ts j)"
      by (auto simp: job_le_def)
  qed
  have pop: "pq_pop q = remove1 m q" using top by (rule pq_pop_remove1)
  have "mset (pq_pop q) = mset q - {#m#}" by (simp add: pop)
  moreover have "length (pq_pop q) + 1 = length q"
  proof -
    have "0 < length q" using assms by simp
    then show ?thesis unfolding pop using mem by (simp add: length_remove1)
  qed
  ultimately have model: "\<exists>m. pq_top q = Some m \<and> m \<in> set q
           \<and> (\<forall>j \<in> set q. priority j \<le> priority m
                 \<and> (priority j = priority m \<longrightarrow> enqueue_ts m \<le> enqueue_ts j))
           \<and> mset (pq_pop q) = mset q - {#m#}
           \<and> length (pq_pop q) + 1 = length q"
    using top mem ord by blast
  have heap: "\<forall>j \<in> set q. priority j \<le> priority (hd q)
                 \<and> (priority j = priority (hd q) \<longrightarrow> enqueue_ts (hd q) \<le> enqueue_ts j)"
    if "is_heap q"
  proof
    fix j assume "j \<in> set q"
    with that have "job_le j (hd q)" by (rule heap_hd_greatest)
    then show "priority j \<le> priority (hd q)
                 \<and> (priority j = priority (hd q) \<longrightarrow> enqueue_ts (hd q) \<le> enqueue_ts j)"
      by (auto simp: job_le_def)
  qed
  show ?thesis using model heap by blast
qed

theorem popMax_highest_priority_earliest_witness:
  "[make_job 2 7 2 102, make_job 1 5 2 101, make_job 3 7 2 103] \<noteq> []
   \<and> is_heap [make_job 2 7 2 102, make_job 1 5 2 101, make_job 3 7 2 103]
   \<and> pq_top [make_job 2 7 2 102, make_job 1 5 2 101, make_job 3 7 2 103]
       = Some (make_job 2 7 2 102)
   \<and> hd [make_job 2 7 2 102, make_job 1 5 2 101, make_job 3 7 2 103] = make_job 2 7 2 102
   \<and> pq_pop [make_job 2 7 2 102, make_job 1 5 2 101, make_job 3 7 2 103]
       = [make_job 1 5 2 101, make_job 3 7 2 103]
   \<and> priority (make_job 3 7 2 103) = priority (make_job 2 7 2 102)
   \<and> enqueue_ts (make_job 2 7 2 102) \<le> enqueue_ts (make_job 3 7 2 103)"
  using popMax_highest_priority_earliest
          [of "[make_job 2 7 2 102, make_job 1 5 2 101, make_job 3 7 2 103]"]
  by (simp add: pq_top_def pq_pop_def JobCmp_def make_job_def is_heap_def upt_rec)

subsection \<open>The loop body in closed form\<close>

lemma maybe_backoff_eq:
  "maybe_backoff j d =
     d\<lparr>slept_ms := slept_ms d + backoff_slept j, effects := effects d @ backoff_effects j\<rparr>"
  by (simp add: maybe_backoff_def backoff_effects_def backoff_slept_def sleep_for_def
      split: option.split)

lemma now_ms_eq:
  "now_ms w d = (tdiv (clock_value w d) 1000000,
     d\<lparr>clock_reads := Suc (clock_reads d),
       effects := effects d @ [ClockRead (clock_value w d)]\<rparr>)"
  by (simp add: now_ms_def clock_now_def Let_def)

lemma attempted_eq:
  "attempted w j d =
     j\<lparr>start_ts := Some (tdiv (start_reading w j d) 1000000),
       status := ''RUNNING'',
       wait_ms := to_int32 (tdiv (start_reading w j d) 1000000 - enqueue_ts j),
       service_ms := fst (rng_service_ms w (rng d)),
       end_ts := Some (tdiv (end_reading w j d) 1000000),
       turnaround_ms := to_int32 (tdiv (end_reading w j d) 1000000 - enqueue_ts j)\<rparr>"
  by (simp add: attempted_def run_attempt_def Let_def split_def now_ms_eq maybe_backoff_eq
      sleep_for_def clock_value_def start_reading_def end_reading_def)

lemma attempt_fails_eq:
  "attempt_fails w j d =
     (unif_at w (Suc (gen (rng d))) < max (2 / 100) (20 / 100 - 6 / 100 * real_of_int (attempt j)))"
  by (simp add: attempt_fails_def run_attempt_def Let_def split_def now_ms_eq maybe_backoff_eq
      sleep_for_def rng_service_ms_def should_fail_def)

lemma after_attempt_eq:
  "after_attempt w j d =
     d\<lparr>rng := (rng d)\<lparr>gen := Suc (Suc (gen (rng d)))\<rparr>,
       clock_reads := Suc (Suc (clock_reads d)),
       slept_ms := slept_ms d + backoff_slept j + max 0 (fst (rng_service_ms w (rng d))),
       effects := effects d @ backoff_effects j
          @ [ClockRead (start_reading w j d),
             SleepFor (fst (rng_service_ms w (rng d))),
             ClockRead (end_reading w j d)]\<rparr>"
  by (simp add: after_attempt_def run_attempt_def Let_def split_def now_ms_eq maybe_backoff_eq
      sleep_for_def rng_service_ms_def should_fail_def clock_value_def start_reading_def
      end_reading_def)

lemma readings_pq [simp]:
  "start_reading w j (d\<lparr>pq := q\<rparr>) = start_reading w j d"
  "end_reading w j (d\<lparr>pq := q\<rparr>) = end_reading w j d"
  "retry_reading w j (d\<lparr>pq := q\<rparr>) = retry_reading w j d"
  by (simp_all add: start_reading_def end_reading_def retry_reading_def)

lemma attempted_pq [simp]: "attempted w j (d\<lparr>pq := q\<rparr>) = attempted w j d"
  by (simp add: attempted_eq)

lemma attempt_fails_pq [simp]: "attempt_fails w j (d\<lparr>pq := q\<rparr>) = attempt_fails w j d"
  by (simp add: attempt_fails_eq)

lemma attempted_fields [simp]:
  "ext_id (attempted w j d) = ext_id j"
  "priority (attempted w j d) = priority j"
  "attempt (attempted w j d) = attempt j"
  "Job.max_retries (attempted w j d) = Job.max_retries j"
  "enqueue_ts (attempted w j d) = enqueue_ts j"
  "fail_reason (attempted w j d) = fail_reason j"
  "status (attempted w j d) = ''RUNNING''"
  by (simp_all add: attempted_eq)

lemma loop_body_eq:
  assumes "pq_top (pq d) = Some j"
  shows "loop_body w d =
     (if \<not> attempt_fails w j d
      then on_success (attempted w j d) (after_attempt w j (d\<lparr>pq := pq_pop (pq d)\<rparr>))
      else on_failure w (attempted w j d) (after_attempt w j (d\<lparr>pq := pq_pop (pq d)\<rparr>)))"
proof -
  let ?d0 = "d\<lparr>pq := pq_pop (pq d)\<rparr>"
  have "run_attempt w j ?d0 = ((attempted w j ?d0, attempt_fails w j ?d0), after_attempt w j ?d0)"
    by (simp add: attempted_def attempt_fails_def after_attempt_def)
  then have "run_attempt w j ?d0 = ((attempted w j d, attempt_fails w j d), after_attempt w j ?d0)"
    by (simp only: attempted_pq attempt_fails_pq)
  then show ?thesis using assms by (simp add: loop_body_def)
qed

text \<open>The three ways an iteration ends.\<close>

lemma loop_body_success:
  assumes "pq_top (pq d) = Some j" "\<not> attempt_fails w j d"
  shows "pq (loop_body w d) = pq_pop (pq d)"
    "completed (loop_body w d) = completed d @ [succeeded (attempted w j d)]"
    "successes (loop_body w d) = successes d + 1"
    "failures (loop_body w d) = failures d"
    "total_wait (loop_body w d) = total_wait d + wait_ms (attempted w j d)"
    "total_service (loop_body w d) = total_service d + service_ms (attempted w j d)"
    "total_turn (loop_body w d) = total_turn d + turnaround_ms (attempted w j d)"
    "db (loop_body w d) = record_job (rec d) (succeeded (attempted w j d)) (db d)"
    "rec (loop_body w d) = rec d"
    "args (loop_body w d) = args d"
    "wall_start (loop_body w d) = wall_start d"
  using assms
  by (simp_all add: loop_body_eq on_success_def Let_def after_attempt_eq succeeded_def)

lemma loop_body_retry:
  assumes "pq_top (pq d) = Some j" "attempt_fails w j d" "attempt j < Job.max_retries j"
  shows "pq (loop_body w d) =
           pq_push (requeued (tdiv (retry_reading w j d) 1000000)
                      (failed (attempted w j d))) (pq_pop (pq d))"
    "completed (loop_body w d) = completed d"
    "successes (loop_body w d) = successes d"
    "failures (loop_body w d) = failures d"
    "total_wait (loop_body w d) = total_wait d"
    "total_service (loop_body w d) = total_service d"
    "total_turn (loop_body w d) = total_turn d"
    "db (loop_body w d) = record_job (rec d) (failed (attempted w j d)) (db d)"
    "rec (loop_body w d) = rec d"
    "args (loop_body w d) = args d"
    "wall_start (loop_body w d) = wall_start d"
  using assms
  by (simp_all add: loop_body_eq on_failure_def Let_def after_attempt_eq failed_def now_ms_eq
      clock_value_def retry_reading_def)

lemma loop_body_terminal:
  assumes "pq_top (pq d) = Some j" "attempt_fails w j d" "\<not> attempt j < Job.max_retries j"
  shows "pq (loop_body w d) = pq_pop (pq d)"
    "completed (loop_body w d) = completed d @ [failed (attempted w j d)]"
    "successes (loop_body w d) = successes d"
    "failures (loop_body w d) = failures d + 1"
    "total_wait (loop_body w d) = total_wait d"
    "total_service (loop_body w d) = total_service d"
    "total_turn (loop_body w d) = total_turn d"
    "db (loop_body w d) = record_job (rec d) (failed (attempted w j d)) (db d)"
    "rec (loop_body w d) = rec d"
    "args (loop_body w d) = args d"
    "wall_start (loop_body w d) = wall_start d"
  using assms
  by (simp_all add: loop_body_eq on_failure_def Let_def after_attempt_eq failed_def)

subsection \<open>Termination\<close>

lemma pending_work_pop:
  assumes "pq_top q = Some j"
  shows "pending_work (pq_pop q) + job_work j = pending_work q"
proof -
  have "j \<in> set q" using assms by (rule pq_top_mem)
  then have "sum_list (map job_work q) = job_work j + sum_list (map job_work (remove1 j q))"
    by (rule sum_list_map_remove1)
  then show ?thesis using assms by (simp add: pending_work_def pq_pop_remove1)
qed

lemma pending_work_push: "pending_work (pq_push j q) = pending_work q + job_work j"
  by (simp add: pending_work_def pq_push_def)

lemma job_work_requeued:
  assumes "attempt j < Job.max_retries j"
  shows "job_work (requeued t (failed (attempted w j d))) < job_work j"
  using assms by (simp add: job_work_def requeued_def failed_def)

lemma loop_body_decreases:
  assumes "pq d \<noteq> []"
  shows "pending_work (pq (loop_body w d)) < pending_work (pq d)"
proof -
  from assms obtain j where top: "pq_top (pq d) = Some j"
    using pq_top_Some by blast
  have pop: "pending_work (pq_pop (pq d)) + job_work j = pending_work (pq d)"
    using top by (rule pending_work_pop)
  have pos: "0 < job_work j" by (simp add: job_work_def)
  show ?thesis
  proof (cases "attempt_fails w j d")
    case False
    with top have "pq (loop_body w d) = pq_pop (pq d)" by (simp add: loop_body_success)
    with pop pos show ?thesis by simp
  next
    case True
    show ?thesis
    proof (cases "attempt j < Job.max_retries j")
      case retry: True
      let ?t = "tdiv (retry_reading w j d) 1000000"
      have "pq (loop_body w d) = pq_push (requeued ?t (failed (attempted w j d))) (pq_pop (pq d))"
        using top True retry by (rule loop_body_retry(1))
      moreover have "job_work (requeued ?t (failed (attempted w j d))) < job_work j"
        using retry by (rule job_work_requeued)
      ultimately show ?thesis using pop by (simp add: pending_work_push)
    next
      case False
      with top True have "pq (loop_body w d) = pq_pop (pq d)" by (simp add: loop_body_terminal)
      with pop pos show ?thesis by simp
    qed
  qed
qed

termination run_loop
  by (relation "measure (\<lambda>(w, d). pending_work (pq d))")
     (simp_all add: pq_empty_def loop_body_decreases)

declare run_loop.simps [simp del]

lemma run_loop_empty: "pq (run_loop w d) = []"
proof (induction w d rule: run_loop.induct)
  case (1 w d)
  show ?case
  proof (cases "pq_empty (pq d)")
    case True
    then show ?thesis by (subst run_loop.simps) (simp add: pq_empty_def)
  next
    case False
    then show ?thesis using "1" by (subst run_loop.simps) simp
  qed
qed

lemma run_loop_iterations: "\<exists>n. run_loop w d = iterations n w d"
proof (induction w d rule: run_loop.induct)
  case (1 w d)
  show ?case
  proof (cases "pq_empty (pq d)")
    case True
    then have "run_loop w d = iterations 0 w d" by (subst run_loop.simps) simp
    then show ?thesis by blast
  next
    case False
    with "1" obtain n where "run_loop w (loop_body w d) = iterations n w (loop_body w d)"
      by blast
    with False have "run_loop w d = iterations (Suc n) w d" by (subst run_loop.simps) simp
    then show ?thesis by blast
  qed
qed

lemma iterations_invariant:
  assumes "P d" and "\<And>d. P d \<Longrightarrow> pq d \<noteq> [] \<Longrightarrow> P (loop_body w d)"
  shows "P (iterations n w d)"
  using assms(1)
proof (induction n arbitrary: d)
  case 0
  then show ?case by simp
next
  case (Suc n)
  then show ?case using assms(2) by (simp add: pq_empty_def)
qed

lemma run_loop_invariant:
  assumes "P d" and "\<And>d. P d \<Longrightarrow> pq d \<noteq> [] \<Longrightarrow> P (loop_body w d)"
  shows "P (run_loop w d)"
proof -
  obtain n where "run_loop w d = iterations n w d" using run_loop_iterations by blast
  then show ?thesis using iterations_invariant [of P d w n] assms by simp
qed

subsection \<open>Seeding\<close>

declare seed_loop.simps [simp del]

lemma seed_loop_unfold:
  "seed_loop w t0 i d =
     (if i \<le> jobs (args d) then
        seed_loop w t0 (i + 1)
          (d\<lparr>rng := (rng d)\<lparr>gen := Suc (gen (rng d))\<rparr>,
             pq := pq d @ [make_job i (prio_at w (gen (rng d))) (Args.max_retries (args d)) (t0 + i)]\<rparr>)
      else d)"
  by (subst seed_loop.simps) (simp add: rng_priority_def pq_push_def)

lemma seeded_empty: "n < i \<Longrightarrow> seeded w t0 g m i n = []"
  by (simp add: seeded_def)

lemma seeded_step:
  assumes "i \<le> n"
  shows "seeded w t0 g m i n = make_job i (prio_at w g) m (t0 + i) # seeded w t0 (Suc g) m (i + 1) n"
proof -
  have "[i..n] = i # [i + 1..n]" using assms by (simp add: upto_rec1)
  moreover have "map (\<lambda>k. make_job k (prio_at w (g + nat (k - i))) m (t0 + k)) [i + 1..n]
      = map (\<lambda>k. make_job k (prio_at w (Suc g + nat (k - (i + 1)))) m (t0 + k)) [i + 1..n]"
  proof (rule map_cong [OF refl])
    fix k assume "k \<in> set [i + 1..n]"
    then have "i + 1 \<le> k" by simp
    then have "g + nat (k - i) = Suc g + nat (k - (i + 1))" by simp
    then show "make_job k (prio_at w (g + nat (k - i))) m (t0 + k)
        = make_job k (prio_at w (Suc g + nat (k - (i + 1)))) m (t0 + k)" by simp
  qed
  ultimately show ?thesis by (simp add: seeded_def)
qed

lemma seed_loop_eq:
  "seed_loop w t0 i d =
     d\<lparr>rng := (rng d)\<lparr>gen := gen (rng d) + nat (jobs (args d) + 1 - i)\<rparr>,
       pq := pq d @ seeded w t0 (gen (rng d)) (Args.max_retries (args d)) i (jobs (args d))\<rparr>"
proof (induction "nat (jobs (args d) + 1 - i)" arbitrary: i d)
  case 0
  then have "jobs (args d) < i" by simp
  then show ?case using 0 by (subst seed_loop_unfold) (simp add: seeded_empty)
next
  case (Suc n)
  then have le: "i \<le> jobs (args d)" by simp
  let ?d1 = "d\<lparr>rng := (rng d)\<lparr>gen := Suc (gen (rng d))\<rparr>,
             pq := pq d @ [make_job i (prio_at w (gen (rng d))) (Args.max_retries (args d)) (t0 + i)]\<rparr>"
  have n: "n = nat (jobs (args ?d1) + 1 - (i + 1))" using Suc.hyps(2) by simp
  have "seed_loop w t0 i d = seed_loop w t0 (i + 1) ?d1"
    using le by (subst seed_loop_unfold) simp
  also have "\<dots> = ?d1\<lparr>rng := (rng ?d1)\<lparr>gen := gen (rng ?d1) + nat (jobs (args ?d1) + 1 - (i + 1))\<rparr>,
       pq := pq ?d1 @ seeded w t0 (gen (rng ?d1)) (Args.max_retries (args ?d1)) (i + 1) (jobs (args ?d1))\<rparr>"
    using n by (rule Suc.hyps(1))
  also have "\<dots> = d\<lparr>rng := (rng d)\<lparr>gen := gen (rng d) + nat (jobs (args d) + 1 - i)\<rparr>,
       pq := pq d @ seeded w t0 (gen (rng d)) (Args.max_retries (args d)) i (jobs (args d))\<rparr>"
    using le Suc.hyps(2) by (simp add: seeded_step [OF le])
  finally show ?case .
qed

lemma start_eq:
  "start w (Dispatcher_init a b) =
     \<lparr> args = a,
       rng = \<lparr> gen = nat (jobs a), norm_mean = mean_ms a, norm_stddev = stddev_ms a \<rparr>,
       db = b,
       rec = \<lparr> run_start_ms = tdiv (tick_at w 0) 1000000, run_end_ms = 0, run_id = 0 \<rparr>,
       pq = seeded w (tdiv (tick_at w 1) 1000000) 0 (Args.max_retries a) 1 (jobs a),
       completed = [], wall_start = tick_at w 2, successes = 0, failures = 0,
       total_wait = 0, total_service = 0, total_turn = 0, clock_reads = 3, slept_ms = 0,
       effects = [ClockRead (tick_at w 0), ClockRead (tick_at w 1), ClockRead (tick_at w 2)] \<rparr>"
  by (simp add: start_def Dispatcher_init_def rec_begin_def seed_jobs_def now_ms_eq clock_now_def
      clock_value_def seed_loop_eq RNG_init_def RunRecorder_init_def Let_def numeral_3_eq_3
      numeral_2_eq_2)

lemma start_fields:
  "args (start w (Dispatcher_init a b)) = a"
  "db (start w (Dispatcher_init a b)) = b"
  "rec (start w (Dispatcher_init a b))
     = \<lparr> run_start_ms = tdiv (tick_at w 0) 1000000, run_end_ms = 0, run_id = 0 \<rparr>"
  "pq (start w (Dispatcher_init a b))
     = seeded w (tdiv (tick_at w 1) 1000000) 0 (Args.max_retries a) 1 (jobs a)"
  "completed (start w (Dispatcher_init a b)) = []"
  "successes (start w (Dispatcher_init a b)) = 0"
  "failures (start w (Dispatcher_init a b)) = 0"
  "total_wait (start w (Dispatcher_init a b)) = 0"
  "total_service (start w (Dispatcher_init a b)) = 0"
  "total_turn (start w (Dispatcher_init a b)) = 0"
  "clock_reads (start w (Dispatcher_init a b)) = 3"
  "slept_ms (start w (Dispatcher_init a b)) = 0"
  "effects (start w (Dispatcher_init a b))
     = [ClockRead (tick_at w 0), ClockRead (tick_at w 1), ClockRead (tick_at w 2)]"
  by (simp_all add: start_eq)

subsection \<open>The end of the run\<close>

lemma finish_eq:
  "finish w d =
     d\<lparr>clock_reads := Suc (Suc (clock_reads d)),
       effects := effects d @ [ClockRead (clock_value w d),
                               ClockRead (tick_at w (Suc (clock_reads d)) + 1000000 * slept_ms d)],
       rec := (rec d)\<lparr>run_end_ms := tdiv (clock_value w d) 1000000,
                       run_id := to_int32 (runs_seq (db d) + 1)\<rparr>,
       db := (db d)\<lparr>runs_table := runs_table (db d) @
          [\<lparr> r_run_id = runs_seq (db d) + 1,
             started_at = run_start_ms (rec d),
             finished_at = tdiv (clock_value w d) 1000000,
             total_jobs = successes d + failures d,
             success_jobs = successes d,
             failed_jobs = failures d,
             avg_wait_ms = (if successes d + failures d \<noteq> 0
                then real_of_int (total_wait d) / real_of_int (successes d + failures d) else 0),
             avg_service_ms = (if successes d + failures d \<noteq> 0
                then real_of_int (total_service d) / real_of_int (successes d + failures d) else 0),
             avg_turnaround_ms = (if successes d + failures d \<noteq> 0
                then real_of_int (total_turn d) / real_of_int (successes d + failures d) else 0),
             throughput_jobs_per_s = real_of_int (successes d) /
                max (1 / 1000)
                  (real_of_int (tick_at w (Suc (clock_reads d)) + 1000000 * slept_ms d
                     - wall_start d) / 1000000000) \<rparr>],
          runs_seq := runs_seq (db d) + 1\<rparr>\<rparr>"
proof -
  have "0 < max (1 / 1000)
      (real_of_int (tick_at w (Suc (clock_reads d)) + 1000000 * slept_ms d - wall_start d)
        / 1000000000)"
    by (simp add: max_def)
  then show ?thesis
    by (simp add: finish_def rec_end_def now_ms_eq clock_now_def clock_value_def Let_def
        record_run_summary_def)
qed

subsection \<open>An empty run\<close>

lemma seeded_nonpositive: "n \<le> 0 \<Longrightarrow> seeded w t0 g m 1 n = []"
  by (simp add: seeded_empty)

lemma run_loop_Nil: "pq d = [] \<Longrightarrow> run_loop w d = d"
  by (subst run_loop.simps) (simp add: pq_empty_def)

lemma parse_args_negative_jobs:
  "parse_args [''dispatcher'', ''--jobs'', ''-5''] = Inr (default_args\<lparr>jobs := - 5\<rparr>)"
  by (simp add: parse_args_def stoi_def is_space_def is_digit_def Let_def)

text \<open>
  C10. When the command line gives a job count that is zero or negative, \<open>main\<close> runs to
  its end: seeding pushes no job, nothing is slept, no attempt is recorded, and the
  summary row has zero jobs, successes and failures, zero averages and zero throughput.
\<close>

theorem nonpositive_job_count_gives_empty_run:
  assumes "parse_args argv = Inr a" and "jobs a \<le> 0"
  shows "\<exists>d row. main w b argv = Inr d
           \<and> pq (start w (Dispatcher_init a b)) = []
           \<and> pq d = [] \<and> completed d = []
           \<and> effects d = map (\<lambda>k. ClockRead (tick_at w k)) [0, 1, 2, 3, 4]
           \<and> jobs_table (db d) = jobs_table b
           \<and> runs_table (db d) = runs_table b @ [row]
           \<and> total_jobs row = 0 \<and> success_jobs row = 0 \<and> failed_jobs row = 0
           \<and> avg_wait_ms row = 0 \<and> avg_service_ms row = 0 \<and> avg_turnaround_ms row = 0
           \<and> throughput_jobs_per_s row = 0"
proof -
  let ?s = "start w (Dispatcher_init a b)"
  have empty: "pq ?s = []"
    using assms(2) by (simp add: start_fields seeded_nonpositive)
  then have loop: "run_loop w ?s = ?s" by (rule run_loop_Nil)
  have main: "main w b argv = Inr (finish w ?s)"
    using assms(1) loop by (simp add: main_def run_def)
  let ?d = "finish w ?s"
  let ?row = "last (runs_table (db ?d))"
  have tbl: "runs_table (db ?d) = runs_table b @ [?row]"
    by (simp add: finish_eq start_fields)
  have row: "total_jobs ?row = 0" "success_jobs ?row = 0" "failed_jobs ?row = 0"
    "avg_wait_ms ?row = 0" "avg_service_ms ?row = 0" "avg_turnaround_ms ?row = 0"
    "throughput_jobs_per_s ?row = 0"
    by (simp_all add: finish_eq start_fields)
  have rest: "pq ?d = []" "completed ?d = []" "jobs_table (db ?d) = jobs_table b"
    "effects ?d = map (\<lambda>k. ClockRead (tick_at w k)) [0, 1, 2, 3, 4]"
    using empty by (simp_all add: finish_eq start_fields clock_value_def eval_nat_numeral)
  show ?thesis using main empty tbl row rest by blast
qed

theorem nonpositive_job_count_gives_empty_run_witness:
  "parse_args [''dispatcher'', ''--jobs'', ''-5''] = Inr (default_args\<lparr>jobs := - 5\<rparr>)
   \<and> jobs (default_args\<lparr>jobs := - 5\<rparr>) \<le> 0
   \<and> (\<exists>d row. main world_all_succeed empty_db [''dispatcher'', ''--jobs'', ''-5''] = Inr d
         \<and> pq d = [] \<and> completed d = [] \<and> jobs_table (db d) = []
         \<and> runs_table (db d) = [row] \<and> total_jobs row = 0 \<and> throughput_jobs_per_s row = 0)"
proof -
  have p: "parse_args [''dispatcher'', ''--jobs'', ''-5''] = Inr (default_args\<lparr>jobs := - 5\<rparr>)"
    by (rule parse_args_negative_jobs)
  have j: "jobs (default_args\<lparr>jobs := - 5\<rparr>) \<le> 0" by simp
  show ?thesis
    using nonpositive_job_count_gives_empty_run [OF p j, of world_all_succeed empty_db] p j
    by (simp add: empty_db_def) blast
qed

subsection \<open>Every seeded job is completed once\<close>

lemma ext_id_pop:
  assumes "pq_top q = Some j"
  shows "mset (map ext_id (pq_pop q)) + {#ext_id j#} = mset (map ext_id q)"
proof -
  have "j \<in> set q" using assms by (rule pq_top_mem)
  then have "mset q = mset (remove1 j q) + {#j#}" by simp
  then have "image_mset ext_id (mset q) = image_mset ext_id (mset (remove1 j q)) + {#ext_id j#}"
    by (metis image_mset_single image_mset_union)
  then show ?thesis using assms by (simp add: pq_pop_remove1)
qed

lemma ext_id_seeded: "map ext_id (seeded w t0 g m i n) = [i..n]"
proof -
  have "map ext_id (seeded w t0 g m i n) = map (\<lambda>k. k) [i..n]"
    unfolding seeded_def map_map by (rule map_cong) (simp_all add: make_job_def)
  then show ?thesis by simp
qed

lemma status_succeeded [simp]: "status (succeeded j) = ''SUCCESS''"
  by (simp add: succeeded_def)

lemma status_failed [simp]: "status (failed j) = ''FAILED''"
  by (simp add: failed_def)

lemma ext_id_succeeded [simp]: "ext_id (succeeded j) = ext_id j"
  by (simp add: succeeded_def)

lemma ext_id_failed [simp]: "ext_id (failed j) = ext_id j"
  by (simp add: failed_def)

lemma ext_id_requeued [simp]: "ext_id (requeued t j) = ext_id j"
  by (simp add: requeued_def)

lemma accounted_start: "accounted (jobs a) (start w (Dispatcher_init a b))"
  by (simp add: accounted_def start_fields ext_id_seeded)

lemma accounted_loop_body:
  assumes acc: "accounted n d" and ne: "pq d \<noteq> []"
  shows "accounted n (loop_body w d)"
proof -
  from ne obtain j where top: "pq_top (pq d) = Some j"
    using pq_top_Some by blast
  have pop: "mset (map ext_id (pq d)) = mset (map ext_id (pq_pop (pq d))) + {#ext_id j#}"
    using ext_id_pop [OF top] by (rule sym)
  have all: "mset (map ext_id (pq d)) + mset (map ext_id (completed d)) = mset [1..n]"
    using acc unfolding accounted_def by (rule conjunct1)
  have ids: "mset (map ext_id (pq_pop (pq d))) + {#ext_id j#} + mset (map ext_id (completed d))
      = mset [1..n]"
    using all by (simp only: pop)
  have cnt: "successes d = int (length (filter (\<lambda>j. status j = ''SUCCESS'') (completed d)))"
    "failures d = int (length (filter (\<lambda>j. status j = ''FAILED'') (completed d)))"
    "\<forall>j \<in> set (completed d). status j = ''SUCCESS'' \<or> status j = ''FAILED''"
    using acc by (simp_all add: accounted_def)
  show ?thesis
  proof (cases "attempt_fails w j d")
    case False
    show ?thesis
      unfolding accounted_def using ids cnt
      by (simp add: loop_body_success [OF top False])
  next
    case True
    show ?thesis
    proof (cases "attempt j < Job.max_retries j")
      case retry: True
      show ?thesis
        unfolding accounted_def using ids cnt
        by (simp add: loop_body_retry [OF top True retry] pq_push_def)
    next
      case False
      show ?thesis
        unfolding accounted_def using ids cnt
        by (simp add: loop_body_terminal [OF top True False])
    qed
  qed
qed

lemma partition_length:
  assumes "\<forall>x \<in> set xs. P x \<or> Q x" and "\<And>x. \<not> (P x \<and> Q x)"
  shows "length (filter P xs) + length (filter Q xs) = length xs"
  using assms(1)
proof (induction xs)
  case Nil
  then show ?case by simp
next
  case (Cons x xs)
  then show ?case using assms(2) [of x] by auto
qed

lemma accounted_final:
  assumes "accounted n d" and "pq d = []" and "0 \<le> n"
  shows "successes d + failures d = n"
proof -
  have m: "mset (map ext_id (completed d)) = mset [1..n]"
    using assms(1,2) by (simp add: accounted_def)
  have "length (map ext_id (completed d)) = length [1..n]"
    using m by (rule mset_eq_length)
  then have len: "int (length (completed d)) = n" using assms(3) by simp
  have "length (filter (\<lambda>j. status j = ''SUCCESS'') (completed d))
        + length (filter (\<lambda>j. status j = ''FAILED'') (completed d)) = length (completed d)"
    using assms(1) by (intro partition_length) (auto simp: accounted_def)
  then show ?thesis using assms(1) len by (simp add: accounted_def)
qed

subsection \<open>Sample runs\<close>

lemmas eval_defs = start_eq seeded_def make_job_def default_args_def empty_db_def
  pq_top_def pq_pop_def pq_push_def pq_empty_def JobCmp_def
  loop_body_def run_attempt_def now_ms_eq clock_value_def maybe_backoff_eq backoff_effects_def
  backoff_slept_def shl32_def
  sleep_for_def rng_service_ms_def should_fail_def on_success_def on_failure_def
  succeeded_def failed_def requeued_def record_job_def value_or_def
  to_int32_def tdiv_def Let_def

lemma start_first_fails:
  "start world_first_fails (Dispatcher_init (default_args\<lparr>jobs := 1\<rparr>) empty_db) =
   \<lparr>args = \<lparr>jobs = 1, max_retries = 2, mean_ms = 300, stddev_ms = 100,
       db_path = ''dispatcher.db''\<rparr>,
    rng = \<lparr>gen = 1, norm_mean = 300, norm_stddev = 100\<rparr>,
    db = \<lparr>runs_table = [], runs_seq = 0, jobs_table = [], jobs_seq = 0\<rparr>,
    rec = \<lparr>run_start_ms = 1000, run_end_ms = 0, run_id = 0\<rparr>,
    pq = [\<lparr>ext_id = 1, priority = 5, attempt = 0, max_retries = 2,
             enqueue_ts = 1011, start_ts = None, end_ts = None, wait_ms = 0,
             service_ms = 0, turnaround_ms = 0, status = ''PENDING'',
             fail_reason = []\<rparr>],
    completed = [], wall_start = 1020000000, successes = 0, failures = 0,
    total_wait = 0, total_service = 0, total_turn = 0, clock_reads = 3,
    slept_ms = 0,
    effects =
      [ClockRead 1000000000, ClockRead 1010000000, ClockRead 1020000000]\<rparr>"
  by (simp add: eval_defs world_first_fails_def upto.simps)

lemma run_first_fails:
  "run world_first_fails (Dispatcher_init (default_args\<lparr>jobs := 1\<rparr>) empty_db) =
  \<lparr>args =
    \<lparr>jobs = 1, max_retries = 2, mean_ms = 300, stddev_ms = 100,
       db_path = ''dispatcher.db''\<rparr>,
    rng = \<lparr>gen = 5, norm_mean = 300, norm_stddev = 100\<rparr>,
    db = \<lparr>runs_table =
            [\<lparr>r_run_id = 1, started_at = 1000, finished_at = 1780,
                total_jobs = 1, success_jobs = 1, failed_jobs = 0,
                avg_wait_ms = 110, avg_service_ms = 300,
                avg_turnaround_ms = 420, throughput_jobs_per_s = 100 / 77\<rparr>],
            runs_seq = 1,
            jobs_table =
              [\<lparr>c_job_id = 1, c_run_id = 0, c_ext_id = 1, c_priority = 5,
                  c_attempt = 0, c_status = ''FAILED'',
                  c_fail_reason = ''SIMULATED_FAILURE'',
                  c_enqueue_ts = 1011, c_start_ts = 1030, c_end_ts = 1340,
                  c_wait_ms = 19, c_service_ms = 300,
                  c_turnaround_ms = 329\<rparr>,
               \<lparr>c_job_id = 2, c_run_id = 0, c_ext_id = 1, c_priority = 6,
                  c_attempt = 1, c_status = ''SUCCESS'',
                  c_fail_reason = ''SIMULATED_FAILURE'',
                  c_enqueue_ts = 1350, c_start_ts = 1460, c_end_ts = 1770,
                  c_wait_ms = 110, c_service_ms = 300,
                  c_turnaround_ms = 420\<rparr>],
            jobs_seq = 2\<rparr>,
    rec = \<lparr>run_start_ms = 1000, run_end_ms = 1780, run_id = 1\<rparr>, pq = [],
    completed =
      [\<lparr>ext_id = 1, priority = 6, attempt = 1, max_retries = 2,
          enqueue_ts = 1350, start_ts = Some 1460, end_ts = Some 1770,
          wait_ms = 110, service_ms = 300, turnaround_ms = 420,
          status = ''SUCCESS'', fail_reason = ''SIMULATED_FAILURE''\<rparr>],
    wall_start = 1020000000, successes = 1, failures = 0, total_wait = 110,
    total_service = 300, total_turn = 420, clock_reads = 10, slept_ms = 700,
    effects =
      [ClockRead 1000000000, ClockRead 1010000000, ClockRead 1020000000,
       ClockRead 1030000000, SleepFor 300, ClockRead 1340000000,
       ClockRead 1350000000, SleepFor 100, ClockRead 1460000000,
       SleepFor 300, ClockRead 1770000000, ClockRead 1780000000,
       ClockRead 1790000000]\<rparr>"
  unfolding run_def start_first_fails
  by (simp add: run_loop.simps finish_eq eval_defs world_first_fails_def)

subsection \<open>The summary of a run\<close>

lemma finish_fields:
  "pq (finish w d) = pq d"
  "completed (finish w d) = completed d"
  "successes (finish w d) = successes d"
  "failures (finish w d) = failures d"
  "jobs_table (db (finish w d)) = jobs_table (db d)"
  "run_id (rec (finish w d)) = to_int32 (runs_seq (db d) + 1)"
  by (simp_all add: finish_eq)

lemma finish_row:
  "\<exists>row. runs_table (db (finish w d)) = runs_table (db d) @ [row]
     \<and> r_run_id row = runs_seq (db d) + 1
     \<and> total_jobs row = successes d + failures d
     \<and> success_jobs row = successes d
     \<and> failed_jobs row = failures d"
  by (simp add: finish_eq)

lemma runs_table_loop_body: "runs_table (db (loop_body w d)) = runs_table (db d)"
proof (cases "pq_top (pq d)")
  case None
  then show ?thesis by (simp add: loop_body_def)
next
  case (Some j)
  show ?thesis
  proof (cases "attempt_fails w j d")
    case False
    show ?thesis by (simp add: loop_body_success [OF Some False] record_job_def)
  next
    case True
    show ?thesis
      by (cases "attempt j < Job.max_retries j")
         (simp_all add: loop_body_retry [OF Some True] loop_body_terminal [OF Some True]
            record_job_def)
  qed
qed

lemma runs_table_run_loop: "runs_table (db (run_loop w d)) = runs_table (db d)"
  by (rule run_loop_invariant [where P = "\<lambda>x. runs_table (db x) = runs_table (db d)"])
     (simp_all add: runs_table_loop_body)

text \<open>
  C9. For a job count \<open>0 \<le> jobs a < 2147483647\<close> the dispatch loop ends after finitely many
  iterations with an empty queue; the summary row has
  \<open>total_jobs = success_jobs + failed_jobs\<close> and \<open>total_jobs = jobs a\<close>; each external id of
  \<open>1..jobs a\<close> is exactly once in the completed set, with status \<^verbatim>\<open>SUCCESS\<close> or \<^verbatim>\<open>FAILED\<close>,
  and the two counts of the row are the numbers of completed jobs of each status. The upper
  bound is the range in which the index \<^verbatim>\<open>int i\<close> of the loop of \<^verbatim>\<open>seed_jobs\<close> does not overflow:
  at \<open>jobs a = 2147483647\<close> the source's \<^verbatim>\<open>++i\<close> leaves the range of \<^verbatim>\<open>int\<close>, \<^const>\<open>seed_loop\<close>
  counts on in the integers, and nothing is stated about that run.
\<close>

theorem every_seeded_job_counted_once:
  assumes "0 \<le> jobs a" and "jobs a < 2147483647"
  shows "\<exists>n row.
           run_loop w (start w (Dispatcher_init a b)) = iterations n w (start w (Dispatcher_init a b))
         \<and> pq (iterations n w (start w (Dispatcher_init a b))) = []
         \<and> pq (run w (Dispatcher_init a b)) = []
         \<and> runs_table (db (run w (Dispatcher_init a b))) = runs_table b @ [row]
         \<and> total_jobs row = success_jobs row + failed_jobs row
         \<and> total_jobs row = jobs a
         \<and> mset (map ext_id (completed (run w (Dispatcher_init a b)))) = mset [1..jobs a]
         \<and> (\<forall>j \<in> set (completed (run w (Dispatcher_init a b))).
               status j = ''SUCCESS'' \<or> status j = ''FAILED'')
         \<and> success_jobs row
             = int (length (filter (\<lambda>j. status j = ''SUCCESS'')
                      (completed (run w (Dispatcher_init a b)))))
         \<and> failed_jobs row
             = int (length (filter (\<lambda>j. status j = ''FAILED'')
                      (completed (run w (Dispatcher_init a b)))))"
proof -
  let ?s = "start w (Dispatcher_init a b)"
  let ?e = "run_loop w ?s"
  obtain n where n: "?e = iterations n w ?s"
    using run_loop_iterations by blast
  have empty: "pq ?e = []" by (rule run_loop_empty)
  have acc: "accounted (jobs a) ?e"
    by (rule run_loop_invariant [where P = "accounted (jobs a)"])
       (simp_all add: accounted_start accounted_loop_body)
  have total: "successes ?e + failures ?e = jobs a"
    using acc empty assms(1) by (rule accounted_final)
  obtain row where row: "runs_table (db (finish w ?e)) = runs_table (db ?e) @ [row]"
    "total_jobs row = successes ?e + failures ?e"
    "success_jobs row = successes ?e" "failed_jobs row = failures ?e"
    using finish_row [of w ?e] by blast
  have tbl: "runs_table (db ?e) = runs_table b"
    by (simp add: runs_table_run_loop start_fields)
  have ids: "mset (map ext_id (completed ?e)) = mset [1..jobs a]"
    using acc empty by (simp add: accounted_def)
  have st: "\<forall>j \<in> set (completed ?e). status j = ''SUCCESS'' \<or> status j = ''FAILED''"
    using acc by (simp add: accounted_def)
  have cnt: "successes ?e = int (length (filter (\<lambda>j. status j = ''SUCCESS'') (completed ?e)))"
    "failures ?e = int (length (filter (\<lambda>j. status j = ''FAILED'') (completed ?e)))"
    using acc by (simp_all add: accounted_def)
  have "?e = iterations n w ?s \<and> pq (iterations n w ?s) = []
      \<and> pq (finish w ?e) = []
      \<and> runs_table (db (finish w ?e)) = runs_table b @ [row]
      \<and> total_jobs row = success_jobs row + failed_jobs row
      \<and> total_jobs row = jobs a
      \<and> mset (map ext_id (completed (finish w ?e))) = mset [1..jobs a]
      \<and> (\<forall>j \<in> set (completed (finish w ?e)). status j = ''SUCCESS'' \<or> status j = ''FAILED'')
      \<and> success_jobs row
          = int (length (filter (\<lambda>j. status j = ''SUCCESS'') (completed (finish w ?e))))
      \<and> failed_jobs row
          = int (length (filter (\<lambda>j. status j = ''FAILED'') (completed (finish w ?e))))"
    using n empty row tbl total ids st cnt by (simp add: finish_fields)
  then show ?thesis unfolding run_def by blast
qed

theorem every_seeded_job_counted_once_witness:
  "0 \<le> jobs (default_args\<lparr>jobs := 1\<rparr>)
   \<and> jobs (default_args\<lparr>jobs := 1\<rparr>) < 2147483647
   \<and> pq (run world_first_fails (Dispatcher_init (default_args\<lparr>jobs := 1\<rparr>) empty_db)) = []
   \<and> map ext_id (completed (run world_first_fails
         (Dispatcher_init (default_args\<lparr>jobs := 1\<rparr>) empty_db))) = [1]
   \<and> (\<exists>row. runs_table (db (run world_first_fails
         (Dispatcher_init (default_args\<lparr>jobs := 1\<rparr>) empty_db))) = [row]
         \<and> total_jobs row = 1 \<and> success_jobs row = 1 \<and> failed_jobs row = 0)"
  using every_seeded_job_counted_once
          [of "default_args\<lparr>jobs := 1\<rparr>" world_first_fails empty_db]
  by (simp add: run_first_fails)

subsection \<open>The states of a run\<close>

lemma iterations_Nil: "pq d = [] \<Longrightarrow> iterations n w d = d"
  by (cases n) (simp_all add: pq_empty_def)

lemma iterations_Suc_last:
  "iterations (Suc n) w d =
     (if pq_empty (pq (iterations n w d)) then iterations n w d
      else loop_body w (iterations n w d))"
proof (induction n arbitrary: d)
  case 0
  show ?case by simp
next
  case (Suc n)
  show ?case
  proof (cases "pq_empty (pq d)")
    case True
    then have "pq d = []" by (simp add: pq_empty_def)
    then show ?thesis by (simp add: iterations_Nil pq_empty_def del: iterations.simps)
  next
    case False
    have "iterations (Suc (Suc n)) w d = iterations (Suc n) w (loop_body w d)"
      using False by simp
    also have "\<dots> = (if pq_empty (pq (iterations n w (loop_body w d)))
        then iterations n w (loop_body w d)
        else loop_body w (iterations n w (loop_body w d)))"
      by (rule Suc.IH)
    also have "iterations n w (loop_body w d) = iterations (Suc n) w d"
      using False by simp
    finally show ?thesis .
  qed
qed

lemma during_0: "during w a b 0 = start w (Dispatcher_init a b)"
  by (simp add: during_def)

lemma during_Suc:
  "pq (during w a b n) \<noteq> [] \<Longrightarrow> during w a b (Suc n) = loop_body w (during w a b n)"
  unfolding during_def by (subst iterations_Suc_last) (simp add: pq_empty_def)

lemma during_invariant:
  assumes "P (start w (Dispatcher_init a b))"
    and "\<And>d. P d \<Longrightarrow> pq d \<noteq> [] \<Longrightarrow> P (loop_body w d)"
  shows "P (during w a b n)"
  unfolding during_def using assms by (rule iterations_invariant)

subsection \<open>The bound on the attempts\<close>

lemma set_pq_pop: "set (pq_pop q) \<subseteq> set q"
proof (cases "pq_top q")
  case None
  then show ?thesis by (simp add: pq_pop_def)
next
  case (Some m)
  then show ?thesis by (simp add: pq_pop_def set_remove1_subset)
qed

lemma set_seeded:
  "j \<in> set (seeded w t0 g m i n) \<Longrightarrow>
     attempt j = 0 \<and> Job.max_retries j = m \<and> (\<exists>k. priority j = prio_at w k)"
  by (auto simp: seeded_def make_job_def)

lemma attempts_bounded_start:
  "0 \<le> Args.max_retries a \<Longrightarrow>
     attempts_bounded (Args.max_retries a) (start w (Dispatcher_init a b))"
  by (auto simp: attempts_bounded_def start_fields dest: set_seeded)

lemma attempts_bounded_loop_body:
  assumes inv: "attempts_bounded m d" and ne: "pq d \<noteq> []"
  shows "attempts_bounded m (loop_body w d)"
proof -
  from ne obtain j where top: "pq_top (pq d) = Some j"
    using pq_top_Some by blast
  have j: "0 \<le> attempt j" "attempt j \<le> m" "Job.max_retries j = m"
    using inv pq_top_mem [OF top] by (simp_all add: attempts_bounded_def)
  have rest: "\<forall>x \<in> set (pq_pop (pq d)) \<union> set (completed d).
      0 \<le> attempt x \<and> attempt x \<le> m \<and> Job.max_retries x = m"
    using inv set_pq_pop [of "pq d"] by (auto simp: attempts_bounded_def)
  show ?thesis
  proof (cases "attempt_fails w j d")
    case False
    show ?thesis
      unfolding attempts_bounded_def using rest j
      by (auto simp: loop_body_success [OF top False] succeeded_def)
  next
    case True
    show ?thesis
    proof (cases "attempt j < Job.max_retries j")
      case retry: True
      show ?thesis
        unfolding attempts_bounded_def using rest j retry
        by (auto simp: loop_body_retry [OF top True retry] pq_push_def requeued_def failed_def)
    next
      case False
      show ?thesis
        unfolding attempts_bounded_def using rest j
        by (auto simp: loop_body_terminal [OF top True False] failed_def)
    qed
  qed
qed

subsection \<open>The bound on the priorities\<close>

lemma priorities_bounded_start:
  "rng_contract w \<Longrightarrow> priorities_bounded (start w (Dispatcher_init a b))"
  by (auto simp: priorities_bounded_def start_fields rng_contract_def dest!: set_seeded)

lemma priorities_bounded_loop_body:
  assumes inv: "priorities_bounded d" and ne: "pq d \<noteq> []"
  shows "priorities_bounded (loop_body w d)"
proof -
  from ne obtain j where top: "pq_top (pq d) = Some j"
    using pq_top_Some by blast
  have j: "1 \<le> priority j" "priority j \<le> 10"
    using inv pq_top_mem [OF top] by (simp_all add: priorities_bounded_def)
  have rest: "\<forall>x \<in> set (pq_pop (pq d)) \<union> set (completed d). 1 \<le> priority x \<and> priority x \<le> 10"
    using inv set_pq_pop [of "pq d"] by (auto simp: priorities_bounded_def)
  show ?thesis
  proof (cases "attempt_fails w j d")
    case False
    show ?thesis
      unfolding priorities_bounded_def using rest j
      by (auto simp: loop_body_success [OF top False] succeeded_def)
  next
    case True
    show ?thesis
    proof (cases "attempt j < Job.max_retries j")
      case retry: True
      show ?thesis
        unfolding priorities_bounded_def using rest j
        by (auto simp: loop_body_retry [OF top True retry] pq_push_def requeued_def failed_def)
    next
      case False
      show ?thesis
        unfolding priorities_bounded_def using rest j
        by (auto simp: loop_body_terminal [OF top True False] failed_def)
    qed
  qed
qed

subsection \<open>The rows of a run\<close>

lemma jobs_table_record_job:
  "jobs_table (record_job r x b) = jobs_table b @
     [\<lparr> c_job_id = jobs_seq b + 1, c_run_id = run_id r, c_ext_id = ext_id x,
        c_priority = priority x, c_attempt = attempt x, c_status = status x,
        c_fail_reason = fail_reason x, c_enqueue_ts = enqueue_ts x,
        c_start_ts = value_or (start_ts x) 0, c_end_ts = value_or (end_ts x) 0,
        c_wait_ms = wait_ms x, c_service_ms = service_ms x,
        c_turnaround_ms = turnaround_ms x \<rparr>]"
  by (simp add: record_job_def)

lemma loop_body_db:
  assumes "pq_top (pq d) = Some j"
  shows "db (loop_body w d) =
     record_job (rec d)
       (if attempt_fails w j d then failed (attempted w j d) else succeeded (attempted w j d))
       (db d)"
proof (cases "attempt_fails w j d")
  case False
  then show ?thesis by (simp add: loop_body_success [OF assms False])
next
  case True
  then show ?thesis
    by (cases "attempt j < Job.max_retries j")
       (simp_all add: loop_body_retry [OF assms True] loop_body_terminal [OF assms True])
qed

lemma loop_body_rec: "rec (loop_body w d) = rec d"
proof (cases "pq_top (pq d)")
  case None
  then show ?thesis by (simp add: loop_body_def)
next
  case (Some j)
  show ?thesis
  proof (cases "attempt_fails w j d")
    case False
    show ?thesis by (simp add: loop_body_success [OF Some False])
  next
    case True
    show ?thesis
      by (cases "attempt j < Job.max_retries j")
         (simp_all add: loop_body_retry [OF Some True] loop_body_terminal [OF Some True])
  qed
qed

text \<open>
  The row that an iteration appends: the job at the top of the queue as it leaves the
  attempt, marked \<^verbatim>\<open>SUCCESS\<close> or \<^verbatim>\<open>FAILED\<close>, under the recorder's current run id.
\<close>

lemma loop_body_jobs_table:
  assumes "pq_top (pq d) = Some j"
  shows "\<exists>row. jobs_table (db (loop_body w d)) = jobs_table (db d) @ [row]
     \<and> c_run_id row = run_id (rec d)
     \<and> c_ext_id row = ext_id j
     \<and> c_attempt row = attempt j
     \<and> c_priority row = priority j
     \<and> c_status row = (if attempt_fails w j d then ''FAILED'' else ''SUCCESS'')
     \<and> c_fail_reason row = (if attempt_fails w j d then ''SIMULATED_FAILURE'' else fail_reason j)"
  by (simp add: loop_body_db [OF assms] jobs_table_record_job failed_def succeeded_def)

lemma recorded_start: "recorded b (start w (Dispatcher_init a b)) = []"
  by (simp add: recorded_def start_fields)

lemma recorded_invariant:
  assumes step: "\<And>d j row. P d \<Longrightarrow> pq_top (pq d) = Some j \<Longrightarrow>
        jobs_table (db (loop_body w d)) = jobs_table (db d) @ [row] \<Longrightarrow> Q row"
    and P0: "P (start w (Dispatcher_init a b))"
    and P: "\<And>d. P d \<Longrightarrow> pq d \<noteq> [] \<Longrightarrow> P (loop_body w d)"
  shows "\<forall>r \<in> set (recorded b (during w a b n)). Q r"
proof -
  let ?I = "\<lambda>d. P d \<and> (\<exists>rows. jobs_table (db d) = jobs_table b @ rows \<and> (\<forall>r \<in> set rows. Q r))"
  have "?I (during w a b n)"
  proof (rule during_invariant)
    show "?I (start w (Dispatcher_init a b))" using P0 by (simp add: start_fields)
  next
    fix d assume I: "?I d" and ne: "pq d \<noteq> []"
    then obtain rows where rows: "jobs_table (db d) = jobs_table b @ rows" "\<forall>r \<in> set rows. Q r"
      by blast
    from ne obtain j where top: "pq_top (pq d) = Some j" using pq_top_Some by blast
    obtain row where row: "jobs_table (db (loop_body w d)) = jobs_table (db d) @ [row]"
      using loop_body_jobs_table [OF top] by blast
    have "Q row" using I top row by (blast intro: step)
    then have "jobs_table (db (loop_body w d)) = jobs_table b @ (rows @ [row])
        \<and> (\<forall>r \<in> set (rows @ [row]). Q r)"
      using rows row by simp
    then show "?I (loop_body w d)" using I ne P by blast
  qed
  then show ?thesis by (auto simp: recorded_def)
qed

subsection \<open>A completed job stays completed\<close>

lemma completed_loop_body: "\<exists>xs. completed (loop_body w d) = completed d @ xs"
proof (cases "pq_top (pq d)")
  case None
  then show ?thesis by (simp add: loop_body_def)
next
  case (Some j)
  show ?thesis
  proof (cases "attempt_fails w j d")
    case False
    show ?thesis by (simp add: loop_body_success [OF Some False])
  next
    case True
    show ?thesis
      by (cases "attempt j < Job.max_retries j")
         (simp_all add: loop_body_retry [OF Some True] loop_body_terminal [OF Some True])
  qed
qed

lemma completed_during_Suc:
  "set (completed (during w a b n)) \<subseteq> set (completed (during w a b (Suc n)))"
proof (cases "pq (during w a b n) = []")
  case True
  then have "during w a b (Suc n) = during w a b n"
    unfolding during_def by (subst iterations_Suc_last) (simp add: pq_empty_def)
  then show ?thesis by simp
next
  case False
  then have "during w a b (Suc n) = loop_body w (during w a b n)" by (rule during_Suc)
  then show ?thesis using completed_loop_body [of w "during w a b n"] by auto
qed

lemma completed_during_mono:
  "n \<le> m \<Longrightarrow> set (completed (during w a b n)) \<subseteq> set (completed (during w a b m))"
proof (induction m)
  case 0
  then show ?case by simp
next
  case (Suc m)
  show ?case
  proof (cases "n = Suc m")
    case True
    then show ?thesis by simp
  next
    case False
    with Suc have "set (completed (during w a b n)) \<subseteq> set (completed (during w a b m))" by simp
    then show ?thesis using completed_during_Suc [of w a b m] by blast
  qed
qed

lemma accounted_during: "accounted (jobs a) (during w a b n)"
  by (rule during_invariant) (simp_all add: accounted_start accounted_loop_body)

lemma accounted_disjoint:
  assumes acc: "accounted k d" and c: "j \<in> set (completed d)" and p: "j' \<in> set (pq d)"
  shows "ext_id j \<noteq> ext_id j'"
proof
  assume eq: "ext_id j = ext_id j'"
  let ?C = "mset (map ext_id (completed d))" and ?Q = "mset (map ext_id (pq d))"
  have c1: "0 < count ?C (ext_id j)" using c by simp
  have q1: "0 < count ?Q (ext_id j)" using p eq by simp
  have "count (?Q + ?C) (ext_id j) = count ?Q (ext_id j) + count ?C (ext_id j)" by simp
  with c1 q1 have "2 \<le> count (?Q + ?C) (ext_id j)" by linarith
  then have "2 \<le> count (mset [1..k]) (ext_id j)"
    using acc unfolding accounted_def by metis
  moreover have "count (mset [1..k]) (ext_id j) \<le> 1"
  proof -
    have "distinct [1..k]" by simp
    then have "count (mset [1..k]) (ext_id j) = (if ext_id j \<in> set [1..k] then 1 else 0)"
      unfolding distinct_count_atmost_1 by blast
    then show ?thesis by simp
  qed
  ultimately show False by simp
qed

lemma never_pending_again:
  assumes "n \<le> m" and "j \<in> set (completed (during w a b n))"
  shows "ext_id j \<notin> ext_id ` set (pq (during w a b m))"
proof
  assume "ext_id j \<in> ext_id ` set (pq (during w a b m))"
  then obtain j' where j': "j' \<in> set (pq (during w a b m))" "ext_id j = ext_id j'" by auto
  have "j \<in> set (completed (during w a b m))"
    using assms completed_during_mono by blast
  then show False using accounted_disjoint [OF accounted_during] j' by blast
qed

subsection \<open>Attempts and the cap on retries\<close>

lemma attempts_bounded_during:
  "0 \<le> Args.max_retries a \<Longrightarrow> attempts_bounded (Args.max_retries a) (during w a b n)"
  by (rule during_invariant) (simp_all add: attempts_bounded_start attempts_bounded_loop_body)

lemma recorded_attempts:
  assumes "0 \<le> Args.max_retries a"
  shows "\<forall>r \<in> set (recorded b (during w a b n)). 0 \<le> c_attempt r \<and> c_attempt r \<le> Args.max_retries a"
proof (rule recorded_invariant [where P = "attempts_bounded (Args.max_retries a)"])
  fix d j row
  assume inv: "attempts_bounded (Args.max_retries a) d" and top: "pq_top (pq d) = Some j"
    and row: "jobs_table (db (loop_body w d)) = jobs_table (db d) @ [row]"
  have "0 \<le> attempt j \<and> attempt j \<le> Args.max_retries a"
    using inv pq_top_mem [OF top] by (simp add: attempts_bounded_def)
  moreover have "c_attempt row = attempt j"
    using loop_body_jobs_table [OF top, of w] row by auto
  ultimately show "0 \<le> c_attempt row \<and> c_attempt row \<le> Args.max_retries a" by simp
qed (simp_all add: assms attempts_bounded_start attempts_bounded_loop_body)

text \<open>
  C6, as the code has it: when the configured cap is not negative, the attempt number of
  every pending job, of every completed job and of every recorded attempt of a run is
  within \<open>[0, max_retries]\<close>; and a job at the top of the queue whose attempt number is the
  cap and whose attempt fails is not pushed back: the queue only loses it, the completed
  set gains it with status \<^verbatim>\<open>FAILED\<close>, and the failure counter goes up by one. No job of the
  completed set is pending in any later state of the run.
\<close>

theorem attempts_within_cap:
  assumes "0 \<le> Args.max_retries a"
  shows "(\<forall>j \<in> set (pq (during w a b n)) \<union> set (completed (during w a b n)).
            0 \<le> attempt j \<and> attempt j \<le> Args.max_retries a
            \<and> Job.max_retries j = Args.max_retries a)
       \<and> (\<forall>r \<in> set (recorded b (during w a b n)).
            0 \<le> c_attempt r \<and> c_attempt r \<le> Args.max_retries a)
       \<and> (\<forall>j. pq_top (pq (during w a b n)) = Some j
              \<and> attempt j = Args.max_retries a \<and> attempt_fails w j (during w a b n)
            \<longrightarrow> pq (during w a b (Suc n)) = pq_pop (pq (during w a b n))
              \<and> completed (during w a b (Suc n))
                  = completed (during w a b n) @ [failed (attempted w j (during w a b n))]
              \<and> status (failed (attempted w j (during w a b n))) = ''FAILED''
              \<and> failures (during w a b (Suc n)) = failures (during w a b n) + 1)
       \<and> (\<forall>m j. n \<le> m \<and> j \<in> set (completed (during w a b n))
            \<longrightarrow> ext_id j \<notin> ext_id ` set (pq (during w a b m)))"
proof -
  let ?d = "during w a b n"
  have never: "\<forall>m j. n \<le> m \<and> j \<in> set (completed ?d)
      \<longrightarrow> ext_id j \<notin> ext_id ` set (pq (during w a b m))"
    using never_pending_again by blast
  have inv: "attempts_bounded (Args.max_retries a) ?d"
    using assms by (rule attempts_bounded_during)
  have rows: "\<forall>r \<in> set (recorded b ?d). 0 \<le> c_attempt r \<and> c_attempt r \<le> Args.max_retries a"
    using assms by (rule recorded_attempts)
  have last: "pq (during w a b (Suc n)) = pq_pop (pq ?d)
      \<and> completed (during w a b (Suc n)) = completed ?d @ [failed (attempted w j ?d)]
      \<and> status (failed (attempted w j ?d)) = ''FAILED''
      \<and> failures (during w a b (Suc n)) = failures ?d + 1"
    if top: "pq_top (pq ?d) = Some j" and cap: "attempt j = Args.max_retries a"
      and fails: "attempt_fails w j ?d" for j
  proof -
    have "j \<in> set (pq ?d)" using top by (rule pq_top_mem)
    then have "Job.max_retries j = Args.max_retries a"
      using inv by (simp add: attempts_bounded_def)
    then have no_retry: "\<not> attempt j < Job.max_retries j" using cap by simp
    have "pq ?d \<noteq> []" using \<open>j \<in> set (pq ?d)\<close> by auto
    then have "during w a b (Suc n) = loop_body w ?d" by (rule during_Suc)
    then show ?thesis by (simp add: loop_body_terminal [OF top fails no_retry])
  qed
  have bounds: "\<forall>j \<in> set (pq ?d) \<union> set (completed ?d).
      0 \<le> attempt j \<and> attempt j \<le> Args.max_retries a
      \<and> Job.max_retries j = Args.max_retries a"
    using inv by (simp add: attempts_bounded_def)
  show ?thesis using bounds rows last never by blast
qed

lemma start_one_job:
  "pq (during w (default_args\<lparr>jobs := 1, Args.max_retries := m\<rparr>) empty_db 0)
     = [make_job 1 (prio_at w 0) m (tdiv (tick_at w 1) 1000000 + 1)]"
  by (simp add: during_0 start_fields seeded_def default_args_def upto.simps)

theorem attempts_within_cap_witness:
  "0 \<le> Args.max_retries (default_args\<lparr>jobs := 1, Args.max_retries := 0\<rparr>)
   \<and> pq_top (pq (during world_all_fail (default_args\<lparr>jobs := 1, Args.max_retries := 0\<rparr>) empty_db 0))
       = Some (make_job 1 5 0 1011)
   \<and> attempt (make_job 1 5 0 1011)
       = Args.max_retries (default_args\<lparr>jobs := 1, Args.max_retries := 0\<rparr>)
   \<and> attempt_fails world_all_fail (make_job 1 5 0 1011)
        (during world_all_fail (default_args\<lparr>jobs := 1, Args.max_retries := 0\<rparr>) empty_db 0)
   \<and> pq (during world_all_fail (default_args\<lparr>jobs := 1, Args.max_retries := 0\<rparr>) empty_db 1) = []
   \<and> map status
        (completed (during world_all_fail (default_args\<lparr>jobs := 1, Args.max_retries := 0\<rparr>) empty_db 1))
       = [''FAILED'']
   \<and> failures (during world_all_fail (default_args\<lparr>jobs := 1, Args.max_retries := 0\<rparr>) empty_db 1) = 1"
proof -
  let ?a = "default_args\<lparr>jobs := 1, Args.max_retries := 0\<rparr>"
  let ?d = "during world_all_fail ?a empty_db 0"
  have q: "pq ?d = [make_job 1 5 0 1011]"
    by (simp add: start_one_job world_all_fail_def tdiv_def)
  have top: "pq_top (pq ?d) = Some (make_job 1 5 0 1011)"
    by (simp add: q pq_top_def)
  have cap: "attempt (make_job 1 5 0 1011) = Args.max_retries ?a"
    by (simp add: make_job_def)
  have fails: "attempt_fails world_all_fail (make_job 1 5 0 1011) ?d"
    by (simp add: attempt_fails_eq world_all_fail_def)
  have "0 \<le> Args.max_retries ?a" by simp
  from attempts_within_cap [OF this, of world_all_fail empty_db 0] top cap fails
  have "pq (during world_all_fail ?a empty_db (Suc 0)) = pq_pop (pq ?d)
      \<and> completed (during world_all_fail ?a empty_db (Suc 0))
          = completed ?d @ [failed (attempted world_all_fail (make_job 1 5 0 1011) ?d)]
      \<and> failures (during world_all_fail ?a empty_db (Suc 0)) = failures ?d + 1"
    by blast
  moreover have "completed ?d = []" "failures ?d = 0"
    by (simp_all add: during_0 start_fields)
  moreover have "pq_pop (pq ?d) = []"
    using top by (simp add: pq_pop_def q)
  ultimately show ?thesis using top cap fails by simp
qed

text \<open>
  The claim as it is written does not hold for a negative cap, which \<open>parse_args\<close> lets
  through: the seeded job has attempt 0 and cap \<open>-1\<close>.
\<close>

theorem attempts_within_cap_counterexample:
  "parse_args [''dispatcher'', ''--jobs'', ''1'', ''--max-retries'', ''-1'']
     = Inr (default_args\<lparr>jobs := 1, Args.max_retries := - 1\<rparr>)
   \<and> pq (during world_all_succeed (default_args\<lparr>jobs := 1, Args.max_retries := - 1\<rparr>) empty_db 0)
       = [make_job 1 5 (- 1) 1011]
   \<and> attempt (make_job 1 5 (- 1) 1011) = 0
   \<and> Job.max_retries (make_job 1 5 (- 1) 1011) = - 1
   \<and> \<not> (attempt (make_job 1 5 (- 1) 1011) \<le> Job.max_retries (make_job 1 5 (- 1) 1011))"
  by (simp add: start_one_job world_all_succeed_def tdiv_def make_job_def
      parse_args_def stoi_def is_space_def is_digit_def Let_def)

subsection \<open>Priority aging\<close>

lemma priorities_bounded_during:
  "rng_contract w \<Longrightarrow> priorities_bounded (during w a b n)"
  by (rule during_invariant) (simp_all add: priorities_bounded_start priorities_bounded_loop_body)

text \<open>
  C7. With priorities drawn from \<open>[1, 10]\<close>, every pending and every completed job of a run
  has its priority in \<open>[1, 10]\<close>; and when the attempt of the job at the top of the queue
  fails below the cap, the job pushed back has the same external id, the next attempt
  number and the priority \<open>min 10 (p + 1)\<close>, where \<open>p\<close> is the priority it was dispatched
  with: it is not below \<open>p\<close> and not above 10.
\<close>

theorem retry_priority_aging:
  assumes "rng_contract w"
  shows "(\<forall>j \<in> set (pq (during w a b n)) \<union> set (completed (during w a b n)).
            1 \<le> priority j \<and> priority j \<le> 10)
       \<and> (\<forall>j. pq_top (pq (during w a b n)) = Some j
              \<and> attempt_fails w j (during w a b n) \<and> attempt j < Job.max_retries j
            \<longrightarrow> (\<exists>j'. pq (during w a b (Suc n)) = pq_push j' (pq_pop (pq (during w a b n)))
                   \<and> ext_id j' = ext_id j
                   \<and> attempt j' = attempt j + 1
                   \<and> priority j' = min 10 (priority j + 1)
                   \<and> priority j \<le> priority j'
                   \<and> priority j' \<le> 10))"
proof -
  let ?d = "during w a b n"
  have inv: "priorities_bounded ?d"
    using assms by (rule priorities_bounded_during)
  have step: "\<exists>j'. pq (during w a b (Suc n)) = pq_push j' (pq_pop (pq ?d))
      \<and> ext_id j' = ext_id j \<and> attempt j' = attempt j + 1
      \<and> priority j' = min 10 (priority j + 1)
      \<and> priority j \<le> priority j' \<and> priority j' \<le> 10"
    if top: "pq_top (pq ?d) = Some j" and fails: "attempt_fails w j ?d"
      and retry: "attempt j < Job.max_retries j" for j
  proof -
    let ?t = "tdiv (retry_reading w j ?d) 1000000"
    let ?j' = "requeued ?t (failed (attempted w j ?d))"
    have mem: "j \<in> set (pq ?d)" using top by (rule pq_top_mem)
    then have "priority j \<le> 10" using inv by (simp add: priorities_bounded_def)
    then have "priority ?j' = min 10 (priority j + 1) \<and> priority j \<le> priority ?j'
        \<and> priority ?j' \<le> 10 \<and> ext_id ?j' = ext_id j \<and> attempt ?j' = attempt j + 1"
      by (simp add: requeued_def failed_def)
    moreover have "pq ?d \<noteq> []" using mem by auto
    then have "during w a b (Suc n) = loop_body w ?d" by (rule during_Suc)
    then have "pq (during w a b (Suc n)) = pq_push ?j' (pq_pop (pq ?d))"
      by (simp add: loop_body_retry(1) [OF top fails retry])
    ultimately show ?thesis by blast
  qed
  show ?thesis using inv step unfolding priorities_bounded_def by blast
qed

lemma rng_contract_all_fail: "rng_contract world_all_fail"
  by (simp add: rng_contract_def world_all_fail_def)

theorem retry_priority_aging_witness:
  "rng_contract world_all_fail
   \<and> pq_top (pq (during world_all_fail (default_args\<lparr>jobs := 1, Args.max_retries := 2\<rparr>) empty_db 0))
       = Some (make_job 1 5 2 1011)
   \<and> attempt_fails world_all_fail (make_job 1 5 2 1011)
        (during world_all_fail (default_args\<lparr>jobs := 1, Args.max_retries := 2\<rparr>) empty_db 0)
   \<and> attempt (make_job 1 5 2 1011) < Job.max_retries (make_job 1 5 2 1011)
   \<and> map priority
        (pq (during world_all_fail (default_args\<lparr>jobs := 1, Args.max_retries := 2\<rparr>) empty_db 1))
       = [6]"
proof -
  let ?a = "default_args\<lparr>jobs := 1, Args.max_retries := 2\<rparr>"
  let ?d = "during world_all_fail ?a empty_db 0"
  let ?j = "make_job 1 5 2 1011"
  have q: "pq ?d = [?j]"
    by (simp add: start_one_job world_all_fail_def tdiv_def)
  have top: "pq_top (pq ?d) = Some ?j"
    by (simp add: q pq_top_def)
  have fails: "attempt_fails world_all_fail ?j ?d"
    by (simp add: attempt_fails_eq world_all_fail_def)
  have retry: "attempt ?j < Job.max_retries ?j"
    by (simp add: make_job_def)
  have pop: "pq_pop (pq ?d) = []"
    using top by (simp add: pq_pop_def q)
  from retry_priority_aging [OF rng_contract_all_fail, of ?a empty_db 0] top fails retry
  obtain j' where "pq (during world_all_fail ?a empty_db (Suc 0)) = pq_push j' (pq_pop (pq ?d))"
    "priority j' = min 10 (priority ?j + 1)"
    by blast
  then have "map priority (pq (during world_all_fail ?a empty_db 1)) = [6]"
    by (simp add: pop pq_push_def make_job_def)
  then show ?thesis using rng_contract_all_fail top fails retry by simp
qed

subsection \<open>Backoff\<close>

lemma effects_loop_body:
  assumes "pq_top (pq d) = Some j"
  shows "effects (loop_body w d) =
     effects d @ backoff_effects j
       @ [ClockRead (start_reading w j d),
          SleepFor (service_ms (attempted w j d)),
          ClockRead (end_reading w j d)]
       @ (if attempt_fails w j d \<and> attempt j < Job.max_retries j
          then [ClockRead (retry_reading w j d)] else [])"
proof (cases "attempt_fails w j d")
  case False
  then show ?thesis
    using assms
    by (simp add: loop_body_eq on_success_def Let_def after_attempt_eq attempted_eq)
next
  case True
  then show ?thesis
    using assms
    by (simp add: loop_body_eq on_failure_def Let_def after_attempt_eq attempted_eq failed_def
        now_ms_eq clock_value_def retry_reading_def)
qed

lemma to_int32_id: "- 2147483648 \<le> x \<Longrightarrow> x < 2147483648 \<Longrightarrow> to_int32 x = x"
  by (simp add: to_int32_def)

lemma shl32_exact:
  assumes "0 \<le> n" and "n \<le> 24"
  shows "shl32 100 n = Some (100 * 2 ^ nat n)"
proof -
  have "(2::int) ^ nat n \<le> 2 ^ 24"
    using assms by (intro power_increasing) simp_all
  then have "(100::int) * 2 ^ nat n \<le> 100 * 2 ^ 24" by simp
  then have hi: "(100::int) * 2 ^ nat n < 2147483648" by simp
  have "(0::int) \<le> 100 * 2 ^ nat n" by simp
  then have lo: "- 2147483648 \<le> (100::int) * 2 ^ nat n" by linarith
  show ?thesis using assms lo hi by (simp add: shl32_def to_int32_id)
qed

text \<open>
  Where the shift stays within \<^verbatim>\<open>int\<close> the backoff is the one that the comment of
  \<^verbatim>\<open>maybe_backoff\<close> announces (\<^verbatim>\<open>exponential backoff: 100ms, 200ms, 400ms...\<close>). An iteration that
  dispatches a job \<open>j\<close> with \<open>attempt j = 0\<close> sleeps nothing before the reading of the clock
  that gives \<open>start_ts\<close>. With \<open>1 \<le> attempt j \<le> 25\<close> it first calls \<^verbatim>\<open>sleep_for\<close> with
  exactly \<open>100 * 2 ^ (attempt j - 1)\<close> milliseconds, and the reading that gives \<open>start_ts\<close>
  is later by exactly that time. The sleep over the service time and the reading that gives
  \<open>end_ts\<close> follow.
\<close>

lemma backoff_in_range:
  assumes "pq_top (pq d) = Some j"
  shows "(attempt j = 0 \<longrightarrow>
            start_reading w j d = tick_at w (clock_reads d) + 1000000 * slept_ms d
          \<and> (\<exists>rest. effects (loop_body w d) =
               effects d @ [ClockRead (start_reading w j d),
                            SleepFor (service_ms (attempted w j d)),
                            ClockRead (end_reading w j d)] @ rest))
       \<and> (1 \<le> attempt j \<and> attempt j \<le> 25 \<longrightarrow>
            start_reading w j d
              = tick_at w (clock_reads d)
                + 1000000 * (slept_ms d + 100 * 2 ^ nat (attempt j - 1))
          \<and> (\<exists>rest. effects (loop_body w d) =
               effects d @ [SleepFor (100 * 2 ^ nat (attempt j - 1)),
                            ClockRead (start_reading w j d),
                            SleepFor (service_ms (attempted w j d)),
                            ClockRead (end_reading w j d)] @ rest))
       \<and> start_ts (attempted w j d) = Some (tdiv (start_reading w j d) 1000000)
       \<and> end_ts (attempted w j d) = Some (tdiv (end_reading w j d) 1000000)"
proof -
  have first: "backoff_effects j = [] \<and> backoff_slept j = 0" if "attempt j = 0"
    using that by (simp add: backoff_effects_def backoff_slept_def)
  have later: "backoff_effects j = [SleepFor (100 * 2 ^ nat (attempt j - 1))]
      \<and> backoff_slept j = 100 * 2 ^ nat (attempt j - 1)"
    if "1 \<le> attempt j \<and> attempt j \<le> 25"
  proof -
    have "shl32 100 (attempt j - 1) = Some (100 * 2 ^ nat (attempt j - 1))"
      using that by (intro shl32_exact) simp_all
    then show ?thesis using that by (simp add: backoff_effects_def backoff_slept_def)
  qed
  have stamps: "start_ts (attempted w j d) = Some (tdiv (start_reading w j d) 1000000)"
    "end_ts (attempted w j d) = Some (tdiv (end_reading w j d) 1000000)"
    by (simp_all add: attempted_eq)
  show ?thesis
    using first later stamps by (simp add: effects_loop_body [OF assms] start_reading_def)
qed

lemma backoff_in_range_example:
  "pq_top [(make_job 1 5 3 1011)\<lparr>attempt := 3\<rparr>] = Some ((make_job 1 5 3 1011)\<lparr>attempt := 3\<rparr>)
   \<and> 1 \<le> attempt ((make_job 1 5 3 1011)\<lparr>attempt := 3\<rparr>)
   \<and> attempt ((make_job 1 5 3 1011)\<lparr>attempt := 3\<rparr>) \<le> 25
   \<and> take 2 (effects (loop_body world_all_succeed
        ((Dispatcher_init default_args empty_db)\<lparr>pq := [(make_job 1 5 3 1011)\<lparr>attempt := 3\<rparr>]\<rparr>)))
       = [SleepFor 400, ClockRead 1400000000]"
proof -
  let ?j = "(make_job 1 5 3 1011)\<lparr>attempt := 3\<rparr>"
  let ?d = "(Dispatcher_init default_args empty_db)\<lparr>pq := [?j]\<rparr>"
  have top: "pq_top (pq ?d) = Some ?j" by (simp add: pq_top_def)
  have att: "1 \<le> attempt ?j \<and> attempt ?j \<le> 25" by (simp add: make_job_def)
  from backoff_in_range [OF top, of world_all_succeed] att
  obtain rest where "start_reading world_all_succeed ?j ?d
        = tick_at world_all_succeed (clock_reads ?d)
          + 1000000 * (slept_ms ?d + 100 * 2 ^ nat (attempt ?j - 1))"
    and "effects (loop_body world_all_succeed ?d) =
      effects ?d @ [SleepFor (100 * 2 ^ nat (attempt ?j - 1)),
         ClockRead (start_reading world_all_succeed ?j ?d),
         SleepFor (service_ms (attempted world_all_succeed ?j ?d)),
         ClockRead (end_reading world_all_succeed ?j ?d)] @ rest"
    by blast
  then have "take 2 (effects (loop_body world_all_succeed ?d))
      = [SleepFor 400, ClockRead 1400000000]"
    by (simp add: Dispatcher_init_def make_job_def world_all_succeed_def)
  then show ?thesis using top att by simp
qed

text \<open>
  A job that keeps failing reaches every attempt number up to the cap: in the world where
  every attempt fails, the run of one job has after \<open>n\<close> iterations that job pending with
  attempt \<open>n\<close>.
\<close>

lemma attempt_fails_all_fail: "attempt_fails world_all_fail j d"
proof -
  have "(0::real) < max (2 / 100) (20 / 100 - 6 / 100 * real_of_int (attempt j))"
    by (simp add: max_def)
  then show ?thesis by (simp add: attempt_fails_eq world_all_fail_def)
qed

lemma all_fail_reaches:
  assumes "n \<le> m"
  shows "\<exists>j. pq (during world_all_fail (default_args\<lparr>jobs := 1, Args.max_retries := int m\<rparr>) empty_db n)
            = [j] \<and> attempt j = int n \<and> Job.max_retries j = int m"
  using assms
proof (induction n)
  case 0
  show ?case by (simp add: start_one_job make_job_def)
next
  case (Suc n)
  let ?a = "default_args\<lparr>jobs := 1, Args.max_retries := int m\<rparr>"
  let ?d = "during world_all_fail ?a empty_db n"
  from Suc obtain j where j: "pq ?d = [j]" "attempt j = int n" "Job.max_retries j = int m"
    by auto
  have top: "pq_top (pq ?d) = Some j" by (simp add: j pq_top_def)
  have retry: "attempt j < Job.max_retries j" using j Suc.prems by simp
  have "during world_all_fail ?a empty_db (Suc n) = loop_body world_all_fail ?d"
    by (rule during_Suc) (simp add: j)
  then have "pq (during world_all_fail ?a empty_db (Suc n))
      = [requeued (tdiv (retry_reading world_all_fail j ?d) 1000000)
          (failed (attempted world_all_fail j ?d))]"
    using top
    by (simp add: loop_body_retry(1) [OF top attempt_fails_all_fail retry] pq_push_def
        pq_pop_def j)
  then show ?case using j by (simp add: requeued_def failed_def)
qed

text \<open>
  C8 at the run of one job with \<^verbatim>\<open>--max-retries 26\<close> in which every attempt fails. After 26
  iterations the job is pending with attempt 26. The claim, and the comment
  \<^verbatim>\<open>exponential backoff: 100ms, 200ms, 400ms...\<close> of \<^verbatim>\<open>maybe_backoff\<close>, ask for a backoff of
  \<open>100 * 2 ^ 25 = 3355443200\<close> milliseconds before the start of that attempt. The code
  computes \<^verbatim>\<open>100 << 25\<close> in an \<^verbatim>\<open>int\<close>: the value it passes to \<^verbatim>\<open>sleep_for\<close> is
  \<open>- 939524096\<close>, nothing is slept, and the reading of the clock that gives \<open>start_ts\<close> is
  taken at once.
\<close>

theorem backoff_wraps_at_attempt_26:
  "pq_top (pq (during world_all_fail (default_args\<lparr>jobs := 1, Args.max_retries := 26\<rparr>) empty_db 26))
     = Some (hd (pq (during world_all_fail
          (default_args\<lparr>jobs := 1, Args.max_retries := 26\<rparr>) empty_db 26)))
   \<and> attempt (hd (pq (during world_all_fail
          (default_args\<lparr>jobs := 1, Args.max_retries := 26\<rparr>) empty_db 26))) = 26
   \<and> take 2 (drop (length (effects (during world_all_fail
          (default_args\<lparr>jobs := 1, Args.max_retries := 26\<rparr>) empty_db 26)))
        (effects (loop_body world_all_fail (during world_all_fail
          (default_args\<lparr>jobs := 1, Args.max_retries := 26\<rparr>) empty_db 26))))
       = [SleepFor (- 939524096),
          ClockRead (start_reading world_all_fail
            (hd (pq (during world_all_fail
               (default_args\<lparr>jobs := 1, Args.max_retries := 26\<rparr>) empty_db 26)))
            (during world_all_fail (default_args\<lparr>jobs := 1, Args.max_retries := 26\<rparr>) empty_db 26))]
   \<and> start_reading world_all_fail
        (hd (pq (during world_all_fail
           (default_args\<lparr>jobs := 1, Args.max_retries := 26\<rparr>) empty_db 26)))
        (during world_all_fail (default_args\<lparr>jobs := 1, Args.max_retries := 26\<rparr>) empty_db 26)
       = tick_at world_all_fail (clock_reads (during world_all_fail
           (default_args\<lparr>jobs := 1, Args.max_retries := 26\<rparr>) empty_db 26))
         + 1000000 * slept_ms (during world_all_fail
           (default_args\<lparr>jobs := 1, Args.max_retries := 26\<rparr>) empty_db 26)
   \<and> slept_ms (maybe_backoff
          (hd (pq (during world_all_fail
             (default_args\<lparr>jobs := 1, Args.max_retries := 26\<rparr>) empty_db 26)))
          (during world_all_fail (default_args\<lparr>jobs := 1, Args.max_retries := 26\<rparr>) empty_db 26))
       = slept_ms (during world_all_fail
           (default_args\<lparr>jobs := 1, Args.max_retries := 26\<rparr>) empty_db 26)
   \<and> (100 * 2 ^ nat (26 - 1) :: int) = 3355443200"
proof -
  let ?d = "during world_all_fail (default_args\<lparr>jobs := 1, Args.max_retries := 26\<rparr>) empty_db 26"
  obtain j where j: "pq ?d = [j]" "attempt j = 26"
    using all_fail_reaches [of 26 26] by auto
  have top: "pq_top (pq ?d) = Some j" by (simp add: j pq_top_def)
  have shift: "shl32 100 (attempt j - 1) = Some (- 939524096)"
    by (simp add: j shl32_def to_int32_def)
  have eff: "backoff_effects j = [SleepFor (- 939524096)]"
    using shift by (simp add: backoff_effects_def j)
  have slept: "backoff_slept j = 0"
    using shift by (simp add: backoff_slept_def j)
  have "take 2 (drop (length (effects ?d)) (effects (loop_body world_all_fail ?d)))
      = [SleepFor (- 939524096), ClockRead (start_reading world_all_fail j ?d)]"
    using eff by (simp add: effects_loop_body [OF top])
  moreover have "start_reading world_all_fail j ?d
      = tick_at world_all_fail (clock_reads ?d) + 1000000 * slept_ms ?d"
    using slept by (simp add: start_reading_def)
  moreover have "slept_ms (maybe_backoff j ?d) = slept_ms ?d"
    using shift by (simp add: maybe_backoff_def sleep_for_def j Let_def)
  ultimately show ?thesis using top j by simp
qed

subsection \<open>What the summary averages\<close>

lemma run_all_fail_no_retry:
  "run world_all_fail (Dispatcher_init (default_args\<lparr>jobs := 1, Args.max_retries := 0\<rparr>) empty_db) =
  \<lparr>args =
    \<lparr>jobs = 1, max_retries = 0, mean_ms = 300, stddev_ms = 100,
       db_path = ''dispatcher.db''\<rparr>,
    rng = \<lparr>gen = 3, norm_mean = 300, norm_stddev = 100\<rparr>,
    db = \<lparr>runs_table =
            [\<lparr>r_run_id = 1, started_at = 1000, finished_at = 1350,
                total_jobs = 1, success_jobs = 0, failed_jobs = 1,
                avg_wait_ms = 0, avg_service_ms = 0, avg_turnaround_ms = 0,
                throughput_jobs_per_s = 0\<rparr>],
            runs_seq = 1,
            jobs_table =
              [\<lparr>c_job_id = 1, c_run_id = 0, c_ext_id = 1, c_priority = 5,
                  c_attempt = 0, c_status = ''FAILED'',
                  c_fail_reason = ''SIMULATED_FAILURE'',
                  c_enqueue_ts = 1011, c_start_ts = 1030, c_end_ts = 1340,
                  c_wait_ms = 19, c_service_ms = 300,
                  c_turnaround_ms = 329\<rparr>],
            jobs_seq = 1\<rparr>,
    rec = \<lparr>run_start_ms = 1000, run_end_ms = 1350, run_id = 1\<rparr>, pq = [],
    completed =
      [\<lparr>ext_id = 1, priority = 5, attempt = 0, max_retries = 0,
          enqueue_ts = 1011, start_ts = Some 1030, end_ts = Some 1340,
          wait_ms = 19, service_ms = 300, turnaround_ms = 329,
          status = ''FAILED'', fail_reason = ''SIMULATED_FAILURE''\<rparr>],
    wall_start = 1020000000, successes = 0, failures = 1, total_wait = 0,
    total_service = 0, total_turn = 0, clock_reads = 7, slept_ms = 300,
    effects =
      [ClockRead 1000000000, ClockRead 1010000000, ClockRead 1020000000,
       ClockRead 1030000000, SleepFor 300, ClockRead 1340000000,
       ClockRead 1350000000, ClockRead 1360000000]\<rparr>"
  unfolding run_def
  by (simp add: run_loop.simps finish_eq eval_defs world_all_fail_def upto.simps)

text \<open>
  The three sums are taken over the completed jobs of status \<^verbatim>\<open>SUCCESS\<close> only, in every
  state of every run.
\<close>

lemma sums_over_successes:
  "total_wait (during w a b n) = success_sum wait_ms (during w a b n)
   \<and> total_service (during w a b n) = success_sum service_ms (during w a b n)
   \<and> total_turn (during w a b n) = success_sum turnaround_ms (during w a b n)"
proof (rule during_invariant)
  show "total_wait (start w (Dispatcher_init a b)) = success_sum wait_ms (start w (Dispatcher_init a b))
      \<and> total_service (start w (Dispatcher_init a b))
          = success_sum service_ms (start w (Dispatcher_init a b))
      \<and> total_turn (start w (Dispatcher_init a b))
          = success_sum turnaround_ms (start w (Dispatcher_init a b))"
    by (simp add: start_fields success_sum_def)
next
  fix d
  assume inv: "total_wait d = success_sum wait_ms d
      \<and> total_service d = success_sum service_ms d
      \<and> total_turn d = success_sum turnaround_ms d"
    and ne: "pq d \<noteq> []"
  from ne obtain j where top: "pq_top (pq d) = Some j" using pq_top_Some by blast
  show "total_wait (loop_body w d) = success_sum wait_ms (loop_body w d)
      \<and> total_service (loop_body w d) = success_sum service_ms (loop_body w d)
      \<and> total_turn (loop_body w d) = success_sum turnaround_ms (loop_body w d)"
  proof (cases "attempt_fails w j d")
    case False
    show ?thesis
      using inv by (simp add: success_sum_def loop_body_success [OF top False] succeeded_def)
  next
    case True
    show ?thesis
    proof (cases "attempt j < Job.max_retries j")
      case retry: True
      show ?thesis
        using inv by (simp add: success_sum_def loop_body_retry [OF top True retry])
    next
      case False
      show ?thesis
        using inv by (simp add: success_sum_def loop_body_terminal [OF top True False])
    qed
  qed
qed

text \<open>
  C1 at a run of one job that fails with no retry left: the job is completed as
  \<^verbatim>\<open>FAILED\<close> with a wait of 19 ms, a service time of 300 ms and a turnaround of 329 ms;
  the summary counts it in \<open>total_jobs\<close>, and every sum and every average is 0.
\<close>

theorem terminal_failure_left_out_of_sums:
  "map (\<lambda>j. (status j, wait_ms j, service_ms j, turnaround_ms j))
     (completed (run world_all_fail
        (Dispatcher_init (default_args\<lparr>jobs := 1, Args.max_retries := 0\<rparr>) empty_db)))
     = [(''FAILED'', 19, 300, 329)]
   \<and> map (\<lambda>r. (total_jobs r, success_jobs r, failed_jobs r))
       (runs_table (db (run world_all_fail
          (Dispatcher_init (default_args\<lparr>jobs := 1, Args.max_retries := 0\<rparr>) empty_db))))
     = [(1, 0, 1)]
   \<and> total_wait (run world_all_fail
        (Dispatcher_init (default_args\<lparr>jobs := 1, Args.max_retries := 0\<rparr>) empty_db)) = 0
   \<and> total_service (run world_all_fail
        (Dispatcher_init (default_args\<lparr>jobs := 1, Args.max_retries := 0\<rparr>) empty_db)) = 0
   \<and> total_turn (run world_all_fail
        (Dispatcher_init (default_args\<lparr>jobs := 1, Args.max_retries := 0\<rparr>) empty_db)) = 0
   \<and> map (\<lambda>r. (avg_wait_ms r, avg_service_ms r, avg_turnaround_ms r))
       (runs_table (db (run world_all_fail
          (Dispatcher_init (default_args\<lparr>jobs := 1, Args.max_retries := 0\<rparr>) empty_db))))
     = [(0, 0, 0)]"
  by (simp add: run_all_fail_no_retry)

subsection \<open>The run id of the recorded attempts\<close>

lemma rec_during: "rec (during w a b n) = rec (start w (Dispatcher_init a b))"
  by (rule during_invariant [where P = "\<lambda>d. rec d = rec (start w (Dispatcher_init a b))"])
     (simp_all add: loop_body_rec)

text \<open>
  Every attempt of a run is recorded under the run id 0: the recorder's \<open>run_id\<close> is 0
  from its construction until \<open>record_run_summary\<close> sets it, after the last attempt.
\<close>

lemma recorded_run_id: "\<forall>r \<in> set (recorded b (during w a b n)). c_run_id r = 0"
proof (rule recorded_invariant [where P = "\<lambda>d. run_id (rec d) = 0"])
  fix d j row
  assume "run_id (rec d) = 0" and top: "pq_top (pq d) = Some j"
    and "jobs_table (db (loop_body w d)) = jobs_table (db d) @ [row]"
  then show "c_run_id row = 0"
    using loop_body_jobs_table [OF top, of w] by auto
qed (simp_all add: start_fields loop_body_rec)

text \<open>
  C2 at a run of one job on an empty database: its two attempts are recorded with
  \<open>run_id = 0\<close>, and the summary row of the run gets the id 1.
\<close>

theorem attempts_recorded_under_run_id_zero:
  "map c_run_id (jobs_table (db (run world_first_fails
       (Dispatcher_init (default_args\<lparr>jobs := 1\<rparr>) empty_db)))) = [0, 0]
   \<and> map r_run_id (runs_table (db (run world_first_fails
       (Dispatcher_init (default_args\<lparr>jobs := 1\<rparr>) empty_db)))) = [1]
   \<and> run_id (rec (run world_first_fails
       (Dispatcher_init (default_args\<lparr>jobs := 1\<rparr>) empty_db))) = 1"
  by (simp add: run_first_fails)

subsection \<open>The failure reason of the recorded attempts\<close>

lemma reasons_kept_start: "reasons_kept (start w (Dispatcher_init a b))"
  by (auto simp: reasons_kept_def start_fields seeded_def make_job_def)

lemma reasons_kept_loop_body:
  assumes inv: "reasons_kept d" and ne: "pq d \<noteq> []"
  shows "reasons_kept (loop_body w d)"
proof -
  from ne obtain j where top: "pq_top (pq d) = Some j" using pq_top_Some by blast
  have j: "0 \<le> attempt j" using inv pq_top_mem [OF top] by (simp add: reasons_kept_def)
  have rest: "\<forall>x \<in> set (pq_pop (pq d)). 0 \<le> attempt x
      \<and> fail_reason x = (if attempt x = 0 then [] else ''SIMULATED_FAILURE'')"
    using inv set_pq_pop [of "pq d"] by (auto simp: reasons_kept_def)
  show ?thesis
  proof (cases "attempt_fails w j d")
    case False
    show ?thesis
      unfolding reasons_kept_def using rest by (simp add: loop_body_success [OF top False])
  next
    case True
    show ?thesis
    proof (cases "attempt j < Job.max_retries j")
      case retry: True
      show ?thesis
        unfolding reasons_kept_def using rest j
        by (auto simp: loop_body_retry [OF top True retry] pq_push_def requeued_def failed_def)
    next
      case False
      show ?thesis
        unfolding reasons_kept_def using rest by (simp add: loop_body_terminal [OF top True False])
    qed
  qed
qed

text \<open>
  What is recorded: a failed attempt always has the reason \<^verbatim>\<open>SIMULATED_FAILURE\<close>; a
  successful attempt has the empty reason when it is the first attempt of its job, and
  \<^verbatim>\<open>SIMULATED_FAILURE\<close> when it is a retry.
\<close>

lemma recorded_fail_reason:
  "\<forall>r \<in> set (recorded b (during w a b n)).
     (c_status r = ''FAILED'' \<longrightarrow> c_fail_reason r = ''SIMULATED_FAILURE'')
     \<and> (c_status r = ''SUCCESS'' \<longrightarrow>
          c_fail_reason r = (if c_attempt r = 0 then [] else ''SIMULATED_FAILURE''))"
proof (rule recorded_invariant [where P = reasons_kept])
  fix d j row
  assume inv: "reasons_kept d" and top: "pq_top (pq d) = Some j"
    and row: "jobs_table (db (loop_body w d)) = jobs_table (db d) @ [row]"
  have "fail_reason j = (if attempt j = 0 then [] else ''SIMULATED_FAILURE'')"
    using inv pq_top_mem [OF top] by (simp add: reasons_kept_def)
  then show "(c_status row = ''FAILED'' \<longrightarrow> c_fail_reason row = ''SIMULATED_FAILURE'')
     \<and> (c_status row = ''SUCCESS'' \<longrightarrow>
          c_fail_reason row = (if c_attempt row = 0 then [] else ''SIMULATED_FAILURE''))"
    using loop_body_jobs_table [OF top, of w] row by auto
qed (simp_all add: reasons_kept_start reasons_kept_loop_body)

text \<open>
  C3 at a run of one job whose first attempt fails and whose second attempt succeeds:
  the successful attempt is recorded with the reason of the earlier failure.
\<close>

theorem successful_retry_recorded_with_fail_reason:
  "map (\<lambda>r. (c_ext_id r, c_attempt r, c_status r, c_fail_reason r))
     (jobs_table (db (run world_first_fails
        (Dispatcher_init (default_args\<lparr>jobs := 1\<rparr>) empty_db))))
     = [(1, 0, ''FAILED'', ''SIMULATED_FAILURE''), (1, 1, ''SUCCESS'', ''SIMULATED_FAILURE'')]
   \<and> map (\<lambda>j. (ext_id j, status j, fail_reason j))
       (completed (run world_first_fails
          (Dispatcher_init (default_args\<lparr>jobs := 1\<rparr>) empty_db)))
     = [(1, ''SUCCESS'', ''SIMULATED_FAILURE'')]"
  by (simp add: run_first_fails)

subsection \<open>Two runs whose clocks differ by a constant\<close>


lemma JobCmp_shift [simp]: "JobCmp (shift_job c a) (shift_job c b) = JobCmp a b"
  by (simp add: JobCmp_def shift_job_def)







lemma backoff_shift [simp]:
  "backoff_slept (shift_job c j) = backoff_slept j"
  "backoff_effects (shift_job c j) = backoff_effects j"
  by (simp_all add: backoff_slept_def backoff_effects_def shift_job_def)












lemma shift_job_status [simp]:
  "shift_job c (succeeded j) = succeeded (shift_job c j)"
  "shift_job c (failed j) = failed (shift_job c j)"
  "shift_job c (requeued t j) = requeued (t + c) (shift_job c j)"
  by (simp_all add: shift_job_def succeeded_def failed_def requeued_def)

lemma shift_job_fields [simp]:
  "ext_id (shift_job c j) = ext_id j" "priority (shift_job c j) = priority j"
  "attempt (shift_job c j) = attempt j" "Job.max_retries (shift_job c j) = Job.max_retries j"
  "wait_ms (shift_job c j) = wait_ms j" "service_ms (shift_job c j) = service_ms j"
  "turnaround_ms (shift_job c j) = turnaround_ms j" "status (shift_job c j) = status j"
  "fail_reason (shift_job c j) = fail_reason j"
  by (simp_all add: shift_job_def)










subsection \<open>Reproducibility\<close>







end
